theory Spec2Isabelle
  imports Complex_Main "HOL-Library.AList"
begin

section \<open>Data model\<close>

text \<open>
  The program is the Airflow DAG \<^verbatim>\<open>etl_movies_ratings\<close> of
  \<^verbatim>\<open>dags/etl_two_tables.py\<close>. Its task callables read and write the relational
  store behind \<^verbatim>\<open>engine\<close> and the directories \<^verbatim>\<open>DATA_DIR\<close>, \<^verbatim>\<open>OUTPUT_DIR\<close> and
  \<^verbatim>\<open>/opt/airflow/tmp\<close>, and they print to the task log. The embedding passes that
  world explicitly.

  Conventions of the embedding:
  \<^item> a data frame or a table is the list of its rows, in stored order; a column that may
    hold NaN (SQL NULL) has an \<open>option\<close> type;
  \<^item> finite floating-point values are exact rationals (\<open>rat\<close>); rounding error of
    IEEE arithmetic is outside the embedding;
  \<^item> strings are byte lists;
  \<^item> the store is reachable: a failed connection is not modelled, a missing table is;
  \<^item> what a task prints is appended to \<open>stdout\<close>, the log of the run.
\<close>

subsection \<open>Rows\<close>

text \<open>A parsed row of \<^verbatim>\<open>movies.csv\<close> and of \<^verbatim>\<open>ratings.csv\<close>, before coercion.\<close>

record raw_movie =
  rm_movie_id :: "int option"
  rm_title :: "string option"
  rm_year :: "int option"

record raw_rating =
  rr_movie_id :: "int option"
  rr_rating :: "rat option"

text \<open>Rows of the tables \<^verbatim>\<open>stg_movies\<close>, \<^verbatim>\<open>stg_ratings\<close> and
  \<^verbatim>\<open>fact_movie_ratings\<close>, and of the result of the analysis query.\<close>

record movie =
  mv_movie_id :: int
  mv_title :: "string option"
  mv_year :: int

record rating =
  rt_movie_id :: int
  rt_rating :: "rat option"

record fact =
  ft_movie_id :: int
  ft_rating :: "rat option"
  ft_rating2 :: "rat option"
  ft_title :: "string option"
  ft_year :: int

record agg_row =
  ag_title :: "string option"
  ag_avg_rating :: "rat option"
  ag_n :: nat

subsection \<open>Files, directories and the world\<close>

datatype artifact =
    MoviesCsv "raw_movie list"
  | RatingsCsv "raw_rating list"
  | AvgRatingsCsv "agg_row list"
  | Top10Png "agg_row list"
  | Blob string

text \<open>A directory is the list of its entries in \<^verbatim>\<open>os.listdir\<close> order.\<close>

datatype node = File artifact | Dir "(string \<times> node) list"

datatype error =
    FileNotFoundError
  | NotADirectoryError
  | IsADirectoryError
  | FileExistsError
  | KeyError
  | IntCastingNaNError
  | ProgrammingError
  | ValueError string
  | PlotError

text \<open>What the tasks print to their log, one value per \<^verbatim>\<open>print\<close> call; the outer handler
  of the analysis task prints the exception and its traceback.\<close>

datatype log_line =
    Movies_ingested nat
  | Ratings_ingested nat
  | Merged_records nat
  | Rowcount_OK nat
  | Analysis_row_count nat
  | Wrote_full_CSV
  | Wrote_PNG
  | Plotting_skipped error
  | Perform_analysis_failed error
  | Dropped_staging_tables
  | Reset_tmp_directory
  | Deleted_tmp_file string

record world =
  stg_movies :: "movie list option"
  stg_ratings :: "rating list option"
  fact_movie_ratings :: "fact list option"
  data_dir :: "node option"
  output_dir :: "node option"
  tmp_dir :: "node option"
  stdout :: "log_line list"

text \<open>
  A task callable either returns or raises. File-system effects made before a raise
  persist, so both outcomes carry the world the task leaves behind.
\<close>

datatype outcome = Done world | Raised error world

fun final :: "outcome \<Rightarrow> world" where
  "final (Done w) = w"
| "final (Raised e w) = w"

fun is_Done :: "outcome \<Rightarrow> bool" where
  "is_Done (Done w) = True"
| "is_Done (Raised e w) = False"

definition print_line :: "log_line \<Rightarrow> world \<Rightarrow> world" where
  "print_line l w = w\<lparr>stdout := stdout w @ [l]\<rparr>"

text \<open>The world without its log, to compare what two executions leave in the store and
  on disk.\<close>

definition silent :: "world \<Rightarrow> world" where
  "silent w = w\<lparr>stdout := []\<rparr>"

section \<open>Library calls\<close>

text \<open>Python's \<^verbatim>\<open>str.isspace\<close> on the ASCII range, and \<^verbatim>\<open>str.strip()\<close>.\<close>

definition isspace :: "char \<Rightarrow> bool" where
  "isspace c = (let k = (of_char c :: nat) in (9 \<le> k \<and> k \<le> 13) \<or> (28 \<le> k \<and> k \<le> 32))"

definition strip :: "string \<Rightarrow> string" where
  "strip s = rev (dropWhile isspace (rev (dropWhile isspace s)))"

definition endswith :: "string \<Rightarrow> string \<Rightarrow> bool" where
  "endswith s suf = (length suf \<le> length s \<and> drop (length s - length suf) s = suf)"

text \<open>Reading a file of a directory (\<^verbatim>\<open>pd.read_csv\<close> opens it).\<close>

definition read_file :: "node option \<Rightarrow> string \<Rightarrow> error + artifact" where
  "read_file d name =
     (case d of
        None \<Rightarrow> Inl FileNotFoundError
      | Some (File a) \<Rightarrow> Inl NotADirectoryError
      | Some (Dir es) \<Rightarrow>
          (case map_of es name of
             None \<Rightarrow> Inl FileNotFoundError
           | Some (Dir sub) \<Rightarrow> Inl IsADirectoryError
           | Some (File a) \<Rightarrow> Inr a))"

text \<open>Writing a file into a directory, replacing a file of that name
  (\<^verbatim>\<open>df.to_csv\<close>, \<^verbatim>\<open>plt.savefig\<close>).\<close>

definition write_file :: "node option \<Rightarrow> string \<Rightarrow> artifact \<Rightarrow> error + node option" where
  "write_file d name a =
     (case d of
        None \<Rightarrow> Inl FileNotFoundError
      | Some (File b) \<Rightarrow> Inl NotADirectoryError
      | Some (Dir es) \<Rightarrow>
          (case map_of es name of
             Some (Dir sub) \<Rightarrow> Inl IsADirectoryError
           | _ \<Rightarrow> Inr (Some (Dir (AList.update name (File a) es)))))"

text \<open>\<^verbatim>\<open>os.makedirs(p, exist_ok=True)\<close>: an existing directory is kept as it is, an
  existing file raises.\<close>

definition makedirs_exist_ok :: "node option \<Rightarrow> error + node option" where
  "makedirs_exist_ok d =
     (case d of
        None \<Rightarrow> Inr (Some (Dir []))
      | Some (Dir es) \<Rightarrow> Inr (Some (Dir es))
      | Some (File a) \<Rightarrow> Inl FileExistsError)"

text \<open>\<^verbatim>\<open>shutil.rmtree(p, ignore_errors=True)\<close>: a directory is removed with all it
  holds; on a file the call fails and the failure is ignored.\<close>

definition rmtree_ignore_errors :: "node option \<Rightarrow> node option" where
  "rmtree_ignore_errors d =
     (case d of
        Some (Dir es) \<Rightarrow> None
      | other \<Rightarrow> other)"

section \<open>Ingestion\<close>

definition ingest_movies :: "world \<Rightarrow> outcome" where
  "ingest_movies w =
     (case read_file (data_dir w) ''movies.csv'' of
        Inl e \<Rightarrow> Raised e w
      | Inr (MoviesCsv df) \<Rightarrow>
          (let df1 = map (\<lambda>r. r\<lparr>rm_title := map_option strip (rm_title r)\<rparr>) df in
           if list_ex (\<lambda>r. rm_year r = None) df1 then Raised IntCastingNaNError w
           else if list_ex (\<lambda>r. rm_movie_id r = None) df1 then Raised IntCastingNaNError w
           else Done (print_line (Movies_ingested (length df1))
                  (w\<lparr>stg_movies := Some (map (\<lambda>r.
                    \<lparr>mv_movie_id = the (rm_movie_id r), mv_title = rm_title r,
                     mv_year = the (rm_year r)\<rparr>) df1)\<rparr>)))
      | Inr other \<Rightarrow> Raised KeyError w)"

definition ingest_ratings :: "world \<Rightarrow> outcome" where
  "ingest_ratings w =
     (case read_file (data_dir w) ''ratings.csv'' of
        Inl e \<Rightarrow> Raised e w
      | Inr (RatingsCsv df) \<Rightarrow>
          (if list_ex (\<lambda>r. rr_movie_id r = None) df then Raised IntCastingNaNError w
           else Done (print_line (Ratings_ingested (length df))
                  (w\<lparr>stg_ratings := Some (map (\<lambda>r.
                    \<lparr>rt_movie_id = the (rr_movie_id r), rt_rating = rr_rating r\<rparr>) df)\<rparr>)))
      | Inr other \<Rightarrow> Raised KeyError w)"

section \<open>Merge\<close>

text \<open>\<^verbatim>\<open>r.merge(m, on="movie_id", how="inner")\<close>: for each row of \<open>r\<close>, in order, its
  matches in \<open>m\<close>, in order; the columns of \<open>r\<close> come first.\<close>

definition inner_merge :: "(rating \<times> rat option) list \<Rightarrow> movie list \<Rightarrow> fact list" where
  "inner_merge r m =
     concat (map (\<lambda>(x, x2).
       map (\<lambda>y. \<lparr>ft_movie_id = rt_movie_id x, ft_rating = rt_rating x, ft_rating2 = x2,
                 ft_title = mv_title y, ft_year = mv_year y\<rparr>)
           (filter (\<lambda>y. mv_movie_id y = rt_movie_id x) m)) r)"

definition merge_transform :: "world \<Rightarrow> outcome" where
  "merge_transform w =
     (case stg_movies w of
        None \<Rightarrow> Raised ProgrammingError w
      | Some m \<Rightarrow>
          (case stg_ratings w of
             None \<Rightarrow> Raised ProgrammingError w
           | Some r \<Rightarrow>
               (let r2 = map (\<lambda>x. (x, map_option (\<lambda>v. v * v) (rt_rating x))) r;
                    merged = inner_merge r2 m
                in Done (print_line (Merged_records (length merged))
                          (w\<lparr>fact_movie_ratings := Some merged\<rparr>)))))"

section \<open>Validation\<close>

definition validate_rowcount_py :: "world \<Rightarrow> outcome" where
  "validate_rowcount_py w =
     (case fact_movie_ratings w of
        None \<Rightarrow> Raised ProgrammingError w
      | Some rows \<Rightarrow>
          (let cnt = length rows in
           if cnt = 0 then Raised (ValueError ''fact_movie_ratings is empty!'') w
           else Done (print_line (Rowcount_OK cnt) w)))"

section \<open>Analysis\<close>

text \<open>SQL \<^verbatim>\<open>avg\<close> ignores NULLs and is NULL when no value is left.\<close>

definition sql_avg :: "rat option list \<Rightarrow> rat option" where
  "sql_avg xs =
     (let vs = map the (filter (\<lambda>x. x \<noteq> None) xs)
      in if vs = [] then None else Some (sum_list vs / of_nat (length vs)))"

text \<open>\<^verbatim>\<open>round(x::numeric, 2)\<close> rounds half away from zero.\<close>

definition round2 :: "rat \<Rightarrow> rat" where
  "round2 x =
     (if 0 \<le> x then of_int \<lfloor>x * 100 + 1 / 2\<rfloor> / 100
      else - (of_int \<lfloor>- x * 100 + 1 / 2\<rfloor> / 100))"

text \<open>\<^verbatim>\<open>order by avg_rating desc, n desc\<close>: \<open>order_by g h\<close> says that \<open>g\<close> may stand
  before \<open>h\<close>. A descending sort of the store puts NULLs first. Both names are output
  columns of the query, so the rounded mean is what is compared.\<close>

fun desc_before :: "rat option \<Rightarrow> rat option \<Rightarrow> bool" where
  "desc_before None None = False"
| "desc_before None (Some y) = True"
| "desc_before (Some x) None = False"
| "desc_before (Some x) (Some y) = (y < x)"

definition order_by :: "agg_row \<Rightarrow> agg_row \<Rightarrow> bool" where
  "order_by g h =
     (desc_before (ag_avg_rating g) (ag_avg_rating h) \<or>
      (ag_avg_rating g = ag_avg_rating h \<and> ag_n h \<le> ag_n g))"

fun insert_by :: "('a \<Rightarrow> 'a \<Rightarrow> bool) \<Rightarrow> 'a \<Rightarrow> 'a list \<Rightarrow> 'a list" where
  "insert_by le x [] = [x]"
| "insert_by le x (y # ys) = (if le x y then x # y # ys else y # insert_by le x ys)"

definition sort_by :: "('a \<Rightarrow> 'a \<Rightarrow> bool) \<Rightarrow> 'a list \<Rightarrow> 'a list" where
  "sort_by le xs = foldr (insert_by le) xs []"

text \<open>One group of the query: the rows of \<open>rows\<close> with title \<open>t\<close>.\<close>

definition group_row :: "fact list \<Rightarrow> string option \<Rightarrow> agg_row" where
  "group_row rows t =
     (let g = filter (\<lambda>f. ft_title f = t) rows
      in \<lparr>ag_title = t,
          ag_avg_rating = map_option round2 (sql_avg (map ft_rating g)),
          ag_n = length g\<rparr>)"

text \<open>The query of \<^verbatim>\<open>simple_analysis\<close>. Where two groups agree on both sort keys the
  store may return them in either order; the embedding fixes one.\<close>

definition analysis_query :: "fact list \<Rightarrow> agg_row list" where
  "analysis_query rows = sort_by order_by (map (group_row rows) (remdups (map ft_title rows)))"

text \<open>\<^verbatim>\<open>df.head(10).sort_values("avg_rating", ascending=True)\<close>; missing values last.\<close>

fun asc_before :: "rat option \<Rightarrow> rat option \<Rightarrow> bool" where
  "asc_before None b = (b = None)"
| "asc_before (Some x) None = True"
| "asc_before (Some x) (Some y) = (x \<le> y)"

definition top10_of :: "agg_row list \<Rightarrow> agg_row list" where
  "top10_of df = sort_by (\<lambda>g h. asc_before (ag_avg_rating g) (ag_avg_rating h)) (take 10 df)"

definition analysis_empty_msg :: string where
  "analysis_empty_msg =
     ''Analysis query returned 0 rows '' @ [CHR 0xE2, CHR 0x80, CHR 0x94] @
     '' check upstream merge.''"

text \<open>The outer handler of \<^verbatim>\<open>simple_analysis\<close>: print the exception, then re-raise it.\<close>

definition reraise :: "error \<Rightarrow> world \<Rightarrow> outcome" where
  "reraise e w = Raised e (print_line (Perform_analysis_failed e) w)"

text \<open>
  \<open>plt\<close> stands for matplotlib: \<open>plt top10 = Some e\<close> when importing it or drawing
  the chart raises \<open>e\<close>, \<open>None\<close> when the figure is ready to be saved. Whatever the
  inner \<^verbatim>\<open>try\<close> catches is printed and dropped. \<^verbatim>\<open>os.makedirs\<close> runs before the outer
  \<^verbatim>\<open>try\<close>.
\<close>

definition simple_analysis :: "(agg_row list \<Rightarrow> error option) \<Rightarrow> world \<Rightarrow> outcome" where
  "simple_analysis plt w =
     (case makedirs_exist_ok (output_dir w) of
        Inl e \<Rightarrow> Raised e w
      | Inr od \<Rightarrow>
          (let w0 = w\<lparr>output_dir := od\<rparr> in
           case fact_movie_ratings w0 of
             None \<Rightarrow> reraise ProgrammingError w0
           | Some rows \<Rightarrow>
               (let df = analysis_query rows;
                    w1 = print_line (Analysis_row_count (length df)) w0
                in if df = [] then reraise (ValueError analysis_empty_msg) w1
                else
                  (case write_file (output_dir w1) ''avg_ratings.csv'' (AvgRatingsCsv df) of
                     Inl e \<Rightarrow> reraise e w1
                   | Inr od2 \<Rightarrow>
                       (let w2 = print_line Wrote_full_CSV (w1\<lparr>output_dir := od2\<rparr>);
                            top10 = top10_of df
                        in case plt top10 of
                             Some e \<Rightarrow> Done (print_line (Plotting_skipped e) w2)
                           | None \<Rightarrow>
                               (case write_file (output_dir w2) ''avg_ratings_top10.png''
                                       (Top10Png top10) of
                                  Inl e \<Rightarrow> Done (print_line (Plotting_skipped e) w2)
                                | Inr od3 \<Rightarrow>
                                    Done (print_line Wrote_PNG (w2\<lparr>output_dir := od3\<rparr>))))))))"

section \<open>Cleanup\<close>

text \<open>\<^verbatim>\<open>drop table if exists\<close> for both staging tables, in one transaction.\<close>

definition cleanup_intermediate :: "world \<Rightarrow> outcome" where
  "cleanup_intermediate w =
     Done (print_line Dropped_staging_tables (w\<lparr>stg_movies := None, stg_ratings := None\<rparr>))"

text \<open>The loop over \<^verbatim>\<open>os.listdir(DATA_DIR)\<close>: the listing is taken once, the directory
  changes as the loop runs. \<^verbatim>\<open>os.remove\<close> raises on a directory and on a missing name.\<close>

fun remove_tmp ::
  "string list \<Rightarrow> (string \<times> node) list \<times> log_line list \<Rightarrow>
   error option \<times> (string \<times> node) list \<times> log_line list" where
  "remove_tmp [] st = (None, st)"
| "remove_tmp (f # fs) (es, out) =
     (if endswith f ''.tmp'' then
        (case map_of es f of
           None \<Rightarrow> (Some FileNotFoundError, es, out)
         | Some (Dir sub) \<Rightarrow> (Some IsADirectoryError, es, out)
         | Some (File a) \<Rightarrow> remove_tmp fs (AList.delete f es, out @ [Deleted_tmp_file f]))
      else remove_tmp fs (es, out))"

definition reset_tmp :: "world \<Rightarrow> error + world" where
  "reset_tmp w =
     (if tmp_dir w \<noteq> None then
        (case makedirs_exist_ok (rmtree_ignore_errors (tmp_dir w)) of
           Inl e \<Rightarrow> Inl e
         | Inr d \<Rightarrow> Inr (print_line Reset_tmp_directory (w\<lparr>tmp_dir := d\<rparr>)))
      else Inr w)"

definition cleanup_files :: "world \<Rightarrow> outcome" where
  "cleanup_files w =
     (case reset_tmp w of
        Inl e \<Rightarrow> Raised e w
      | Inr w1 \<Rightarrow>
          (case data_dir w1 of
             None \<Rightarrow> Raised FileNotFoundError w1
           | Some (File a) \<Rightarrow> Raised NotADirectoryError w1
           | Some (Dir es) \<Rightarrow>
               (case remove_tmp (map fst es) (es, stdout w1) of
                  (None, es', out) \<Rightarrow> Done (w1\<lparr>data_dir := Some (Dir es'), stdout := out\<rparr>)
                | (Some e, es', out) \<Rightarrow>
                    Raised e (w1\<lparr>data_dir := Some (Dir es'), stdout := out\<rparr>))))"

section \<open>One run of the graph\<close>

definition and_then :: "outcome \<Rightarrow> (world \<Rightarrow> outcome) \<Rightarrow> outcome" where
  "and_then r f = (case r of Done w \<Rightarrow> f w | Raised e w \<Rightarrow> Raised e w)"

text \<open>
  The tasks in an order the dependency line
  \<^verbatim>\<open>tg >> merge >> validate >> analyze >> [cleanup_db, cleanup_files_task]\<close> allows, each
  at its first attempt; the run stops at the first task that raises.
\<close>

definition etl_movies_ratings :: "(agg_row list \<Rightarrow> error option) \<Rightarrow> world \<Rightarrow> outcome" where
  "etl_movies_ratings plt w =
     and_then (and_then (and_then (and_then (and_then (and_then
       (ingest_movies w) ingest_ratings) merge_transform) validate_rowcount_py)
       (simple_analysis plt)) cleanup_intermediate) cleanup_files"

section \<open>The task graph and its scheduler\<close>

text \<open>The tasks of the DAG, named by their \<^verbatim>\<open>task_id\<close>.\<close>

datatype task =
    Ingest_movies
  | Ingest_ratings
  | Merge_and_load_final
  | Validate_rowcount
  | Perform_analysis
  | Cleanup_stage_db
  | Cleanup_files

text \<open>The dependency line
  \<^verbatim>\<open>tg >> merge >> validate >> analyze >> [cleanup_db, cleanup_files_task]\<close>, where
  \<^verbatim>\<open>tg\<close> is the task group of the two ingestion tasks.\<close>

fun upstream :: "task \<Rightarrow> task list" where
  "upstream Ingest_movies = []"
| "upstream Ingest_ratings = []"
| "upstream Merge_and_load_final = [Ingest_movies, Ingest_ratings]"
| "upstream Validate_rowcount = [Merge_and_load_final]"
| "upstream Perform_analysis = [Validate_rowcount]"
| "upstream Cleanup_stage_db = [Perform_analysis]"
| "upstream Cleanup_files = [Perform_analysis]"

text \<open>\<^verbatim>\<open>default_args\<close>: \<^verbatim>\<open>"retries": 1\<close>, shared by every task.\<close>

definition retries :: nat where
  "retries = 1"

definition all_tasks :: "task list" where
  "all_tasks = [Ingest_movies, Ingest_ratings, Merge_and_load_final, Validate_rowcount,
                Perform_analysis, Cleanup_stage_db, Cleanup_files]"

text \<open>Modelled from the spec: the task statuses of a run. The scheduler that interprets
  the graph is Airflow's and is not among the sources of the repository; sections 3 and
  4.1 of the specification give the statuses pending, running, succeeded, failed and
  skipped.\<close>

datatype status = Pending | Running | Succeeded | Failed | Skipped

text \<open>Modelled from the spec: a run owns the status of every task; the number of attempts
  started so far is kept beside it, for the retry budget.\<close>

record run =
  status_of :: "task \<Rightarrow> status"
  attempts :: "task \<Rightarrow> nat"

text \<open>Modelled from the spec: at the start of a run every task is pending.\<close>

definition new_run :: run where
  "new_run = \<lparr>status_of = (\<lambda>t. Pending), attempts = (\<lambda>t. 0)\<rparr>"

text \<open>Modelled from the spec: a status transition of one task.\<close>

definition set_status :: "task \<Rightarrow> status \<Rightarrow> run \<Rightarrow> run" where
  "set_status t s r = r\<lparr>status_of := (status_of r)(t := s)\<rparr>"

text \<open>Modelled from the spec: dispatching a task starts one more attempt of it.\<close>

definition dispatched :: "task \<Rightarrow> run \<Rightarrow> run" where
  "dispatched t r = set_status t Running (r\<lparr>attempts := (attempts r)(t := Suc (attempts r t))\<rparr>)"

text \<open>Modelled from the spec: the scheduler's moves. A pending task is dispatched only when
  all its upstream tasks have succeeded; a running attempt succeeds, or fails and is
  retried while the budget lasts, or fails for good once it is exhausted; a pending task
  with a failed or skipped upstream task is skipped without execution. Independent tasks
  interleave freely: any enabled move may be the next.\<close>

inductive step :: "run \<Rightarrow> run \<Rightarrow> bool" where
  dispatch:
    "status_of r t = Pending \<Longrightarrow> list_all (\<lambda>u. status_of r u = Succeeded) (upstream t) \<Longrightarrow>
     step r (dispatched t r)"
| succeed:
    "status_of r t = Running \<Longrightarrow> step r (set_status t Succeeded r)"
| retry:
    "status_of r t = Running \<Longrightarrow> attempts r t \<le> retries \<Longrightarrow> step r (set_status t Pending r)"
| exhaust:
    "status_of r t = Running \<Longrightarrow> retries < attempts r t \<Longrightarrow> step r (set_status t Failed r)"
| skip:
    "status_of r t = Pending \<Longrightarrow>
     list_ex (\<lambda>u. status_of r u = Failed \<or> status_of r u = Skipped) (upstream t) \<Longrightarrow>
     step r (set_status t Skipped r)"

code_pred step .

text \<open>Modelled from the spec: a run has ended when no task is pending or running.\<close>

definition terminal :: "run \<Rightarrow> bool" where
  "terminal r = list_all (\<lambda>t. status_of r t \<noteq> Pending \<and> status_of r t \<noteq> Running) all_tasks"

text \<open>Modelled from the spec: a run is failed when some task of it has failed, that is,
  has exhausted its retries.\<close>

definition run_failed :: "run \<Rightarrow> bool" where
  "run_failed r = list_ex (\<lambda>t. status_of r t = Failed) all_tasks"

text \<open>What every reachable run satisfies, task by task: an attempt was started only with
  all upstream tasks succeeded, a skipped task was never attempted, and the attempts
  respect the retry budget.\<close>

definition sound_at :: "run \<Rightarrow> task \<Rightarrow> bool" where
  "sound_at r t =
     ((status_of r t = Running \<or> status_of r t = Succeeded \<or> status_of r t = Failed
         \<or> 0 < attempts r t \<longrightarrow>
             list_all (\<lambda>u. status_of r u = Succeeded) (upstream t))
        \<and> (status_of r t = Skipped \<longrightarrow> attempts r t = 0)
        \<and> (status_of r t = Failed \<longrightarrow> attempts r t = Suc retries)
        \<and> (status_of r t = Running \<longrightarrow> 0 < attempts r t \<and> attempts r t \<le> Suc retries)
        \<and> (status_of r t = Pending \<longrightarrow> attempts r t \<le> retries))"

definition sound :: "run \<Rightarrow> bool" where
  "sound r = list_all (sound_at r) all_tasks"

text \<open>A run in which \<^verbatim>\<open>ingest_movies\<close> succeeds and \<^verbatim>\<open>ingest_ratings\<close> fails twice.\<close>

definition example_run :: run where
  "example_run =
     foldl (\<lambda>r f. f r) new_run
       [dispatched Ingest_movies, set_status Ingest_movies Succeeded,
        dispatched Ingest_ratings, set_status Ingest_ratings Pending,
        dispatched Ingest_ratings, set_status Ingest_ratings Failed,
        set_status Merge_and_load_final Skipped, set_status Validate_rowcount Skipped,
        set_status Perform_analysis Skipped, set_status Cleanup_stage_db Skipped,
        set_status Cleanup_files Skipped]"

section \<open>Observations and sample data\<close>

text \<open>The entries of a directory; a path that is absent or a file has none.\<close>

definition entries :: "node option \<Rightarrow> (string \<times> node) list" where
  "entries d = (case d of Some (Dir es) \<Rightarrow> es | _ \<Rightarrow> [])"

definition not_tmp :: "string \<times> node \<Rightarrow> bool" where
  "not_tmp e = (\<not> endswith (fst e) ''.tmp'')"

definition is_File :: "node \<Rightarrow> bool" where
  "is_File x = (case x of File a \<Rightarrow> True | Dir es \<Rightarrow> False)"

text \<open>A world before the first run: the two source files and a leftover temporary file
  in the data directory, an empty store, no output and no scratch directory.\<close>

definition example_world :: world where
  "example_world =
     \<lparr>stg_movies = None, stg_ratings = None, fact_movie_ratings = None,
      data_dir = Some (Dir
        [(''movies.csv'', File (MoviesCsv
            [\<lparr>rm_movie_id = Some 1, rm_title = Some '' A '', rm_year = Some 2000\<rparr>])),
         (''part.tmp'', File (Blob ''x'')),
         (''ratings.csv'', File (RatingsCsv
            [\<lparr>rr_movie_id = Some 1, rr_rating = Some 4\<rparr>,
             \<lparr>rr_movie_id = Some 1, rr_rating = Some 2\<rparr>]))]),
      output_dir = None,
      tmp_dir = None,
      stdout = []\<rparr>"

definition example_fact :: "fact list" where
  "example_fact =
     [\<lparr>ft_movie_id = 1, ft_rating = Some 4, ft_rating2 = Some 16,
       ft_title = Some ''A'', ft_year = 2000\<rparr>,
      \<lparr>ft_movie_id = 1, ft_rating = Some 2, ft_rating2 = Some 4,
       ft_title = Some ''A'', ft_year = 2000\<rparr>]"

text \<open>The same world with a scratch directory that holds one file.\<close>

definition example_world_scratch :: world where
  "example_world_scratch =
     example_world\<lparr>tmp_dir := Some (Dir [(''scratch.bin'', File (Blob ''y''))])\<rparr>"

text \<open>A fact table with three titles, one of them rated only by a NULL.\<close>

definition example_fact2 :: "fact list" where
  "example_fact2 =
     [\<lparr>ft_movie_id = 1, ft_rating = Some 4, ft_rating2 = Some 16,
       ft_title = Some ''A'', ft_year = 2000\<rparr>,
      \<lparr>ft_movie_id = 2, ft_rating = Some 5, ft_rating2 = Some 25,
       ft_title = Some ''B'', ft_year = 2001\<rparr>,
      \<lparr>ft_movie_id = 1, ft_rating = Some 3, ft_rating2 = Some 9,
       ft_title = Some ''A'', ft_year = 2000\<rparr>,
      \<lparr>ft_movie_id = 1, ft_rating = Some 3, ft_rating2 = Some 9,
       ft_title = Some ''A'', ft_year = 2000\<rparr>,
      \<lparr>ft_movie_id = 3, ft_rating = None, ft_rating2 = None,
       ft_title = Some ''C'', ft_year = 2002\<rparr>]"

text \<open>The sample world after a merge that wrote the two rows of the worked example.\<close>

definition example_world_merged :: world where
  "example_world_merged = example_world\<lparr>fact_movie_ratings := Some example_fact\<rparr>"

text \<open>The sample world after one complete run in which plotting succeeded.\<close>

definition example_world_after :: world where
  "example_world_after =
     \<lparr>stg_movies = None, stg_ratings = None,
      fact_movie_ratings = Some example_fact,
      data_dir = Some (Dir
        [(''movies.csv'', File (MoviesCsv
            [\<lparr>rm_movie_id = Some 1, rm_title = Some '' A '', rm_year = Some 2000\<rparr>])),
         (''ratings.csv'', File (RatingsCsv
            [\<lparr>rr_movie_id = Some 1, rr_rating = Some 4\<rparr>,
             \<lparr>rr_movie_id = Some 1, rr_rating = Some 2\<rparr>]))]),
      output_dir = Some (Dir
        [(''avg_ratings.csv'', File (AvgRatingsCsv
            [\<lparr>ag_title = Some ''A'', ag_avg_rating = Some 3, ag_n = 2\<rparr>])),
         (''avg_ratings_top10.png'', File (Top10Png
            [\<lparr>ag_title = Some ''A'', ag_avg_rating = Some 3, ag_n = 2\<rparr>]))]),
      tmp_dir = None,
      stdout =
        [Movies_ingested 1, Ratings_ingested 2, Merged_records 2, Rowcount_OK 2,
         Analysis_row_count 1, Wrote_full_CSV, Wrote_PNG, Dropped_staging_tables,
         Deleted_tmp_file ''part.tmp'']\<rparr>"

section \<open>Helper lemmas\<close>

lemma round2_3: "round2 3 = 3"
  by (simp add: round2_def floor_eq_iff)

lemma silent_print_line [simp]: "silent (print_line l w) = silent w"
  by (simp add: silent_def print_line_def)

lemma silent_fields [simp]:
  "stg_movies (silent w) = stg_movies w" "stg_ratings (silent w) = stg_ratings w"
  "fact_movie_ratings (silent w) = fact_movie_ratings w" "data_dir (silent w) = data_dir w"
  "output_dir (silent w) = output_dir w" "tmp_dir (silent w) = tmp_dir w"
  by (simp_all add: silent_def)

lemma print_line_fields [simp]:
  "stg_movies (print_line l w) = stg_movies w" "stg_ratings (print_line l w) = stg_ratings w"
  "fact_movie_ratings (print_line l w) = fact_movie_ratings w"
  "data_dir (print_line l w) = data_dir w" "output_dir (print_line l w) = output_dir w"
  "tmp_dir (print_line l w) = tmp_dir w" "stdout (print_line l w) = stdout w @ [l]"
  by (simp_all add: print_line_def)

section \<open>The worked example\<close>

text \<open>
  Claim C1. With \<^verbatim>\<open>stg_movies\<close> holding the one movie \<open>(1, "A", 2000)\<close> and
  \<^verbatim>\<open>stg_ratings\<close> holding the ratings \<open>(1, 4.0)\<close> and \<open>(1, 2.0)\<close>, the merge task
  writes exactly two fact rows, with \<open>rating2\<close> equal to 16 and 4 in this order, both
  with title "A"; the analysis query over that fact table returns the single group
  \<open>("A", 3.0, 2)\<close>.
\<close>

theorem merge_then_analysis_example:
  "merge_transform
     (w\<lparr>stg_movies := Some [\<lparr>mv_movie_id = 1, mv_title = Some ''A'', mv_year = 2000\<rparr>],
        stg_ratings := Some [\<lparr>rt_movie_id = 1, rt_rating = Some 4\<rparr>,
                             \<lparr>rt_movie_id = 1, rt_rating = Some 2\<rparr>]\<rparr>)
   = Done
     (w\<lparr>stg_movies := Some [\<lparr>mv_movie_id = 1, mv_title = Some ''A'', mv_year = 2000\<rparr>],
        stg_ratings := Some [\<lparr>rt_movie_id = 1, rt_rating = Some 4\<rparr>,
                             \<lparr>rt_movie_id = 1, rt_rating = Some 2\<rparr>],
        fact_movie_ratings := Some
          [\<lparr>ft_movie_id = 1, ft_rating = Some 4, ft_rating2 = Some 16,
            ft_title = Some ''A'', ft_year = 2000\<rparr>,
           \<lparr>ft_movie_id = 1, ft_rating = Some 2, ft_rating2 = Some 4,
            ft_title = Some ''A'', ft_year = 2000\<rparr>],
        stdout := stdout w @ [Merged_records 2]\<rparr>)
   \<and> analysis_query
          [\<lparr>ft_movie_id = 1, ft_rating = Some 4, ft_rating2 = Some 16,
            ft_title = Some ''A'', ft_year = 2000\<rparr>,
           \<lparr>ft_movie_id = 1, ft_rating = Some 2, ft_rating2 = Some 4,
            ft_title = Some ''A'', ft_year = 2000\<rparr>]
     = [\<lparr>ag_title = Some ''A'', ag_avg_rating = Some 3, ag_n = 2\<rparr>]"
  by (simp add: merge_transform_def inner_merge_def analysis_query_def group_row_def
      sql_avg_def round2_3 sort_by_def print_line_def)

section \<open>Validation is a read-only gate\<close>

text \<open>
  Claim C4. The validation task reads only the row count of \<^verbatim>\<open>fact_movie_ratings\<close>.
  When the table exists, the task raises the error "fact_movie_ratings is empty!"
  exactly when the count is zero, and returns otherwise; whether it returns or raises,
  it leaves the store and the directories as it found them: all it adds is a line of
  its log when it returns.
\<close>

theorem validate_rowcount_gate:
  assumes "fact_movie_ratings w = Some rows"
  shows "validate_rowcount_py w =
           (if length rows = 0 then Raised (ValueError ''fact_movie_ratings is empty!'') w
            else Done (print_line (Rowcount_OK (length rows)) w))
         \<and> silent (final (validate_rowcount_py w)) = silent w"
  using assms by (simp add: validate_rowcount_py_def)

theorem validate_rowcount_gate_witness:
  "validate_rowcount_py (example_world\<lparr>fact_movie_ratings := Some []\<rparr>) =
     Raised (ValueError ''fact_movie_ratings is empty!'')
       (example_world\<lparr>fact_movie_ratings := Some []\<rparr>)
   \<and> validate_rowcount_py (example_world\<lparr>fact_movie_ratings := Some example_fact\<rparr>) =
     Done (print_line (Rowcount_OK 2) (example_world\<lparr>fact_movie_ratings := Some example_fact\<rparr>))"
  using validate_rowcount_gate [of "example_world\<lparr>fact_movie_ratings := Some []\<rparr>" "[]"]
    validate_rowcount_gate [of "example_world\<lparr>fact_movie_ratings := Some example_fact\<rparr>"
      example_fact]
  by (simp add: example_fact_def)

section \<open>Storage cleanup\<close>

text \<open>
  Claim C8. The storage cleanup task always returns, and afterwards neither staging table
  exists while nothing else but the log has changed; running it a second time returns
  again and leaves the same store and directories; and when both staging tables are
  already missing it changes nothing but the log.
\<close>

theorem cleanup_intermediate_idempotent:
  "cleanup_intermediate w =
     Done (print_line Dropped_staging_tables (w\<lparr>stg_movies := None, stg_ratings := None\<rparr>))
   \<and> is_Done (and_then (cleanup_intermediate w) cleanup_intermediate)
   \<and> silent (final (and_then (cleanup_intermediate w) cleanup_intermediate)) =
       silent (final (cleanup_intermediate w))
   \<and> (stg_movies w = None \<and> stg_ratings w = None \<longrightarrow>
        silent (final (cleanup_intermediate w)) = silent w)"
  by (auto simp add: cleanup_intermediate_def and_then_def silent_def print_line_def)

theorem cleanup_intermediate_idempotent_witness:
  "cleanup_intermediate example_world = Done (print_line Dropped_staging_tables example_world)
   \<and> cleanup_intermediate (example_world\<lparr>stg_movies := Some []\<rparr>) =
       Done (print_line Dropped_staging_tables example_world)"
  using cleanup_intermediate_idempotent [of example_world]
    cleanup_intermediate_idempotent [of "example_world\<lparr>stg_movies := Some []\<rparr>"]
  by (simp add: example_world_def)

section \<open>File cleanup: what is kept\<close>

lemma delete_filter_tmp:
  "endswith f ''.tmp'' \<Longrightarrow> filter not_tmp (AList.delete f es) = filter not_tmp es"
  by (induction es) (auto simp: not_tmp_def)

lemma remove_tmp_filter:
  "filter not_tmp (fst (snd (remove_tmp fs (es, out)))) = filter not_tmp es"
proof (induction fs arbitrary: es out)
  case Nil
  then show ?case by simp
next
  case (Cons f fs)
  then show ?case
    by (auto split: option.splits node.splits simp: delete_filter_tmp)
qed

lemma delete_subset: "set (AList.delete f es) \<subseteq> set es"
  by (induction es) auto

lemma remove_tmp_subset: "set (fst (snd (remove_tmp fs (es, out)))) \<subseteq> set es"
proof (induction fs arbitrary: es out)
  case Nil
  then show ?case by simp
next
  case (Cons f fs)
  show ?case
  proof (cases "endswith f ''.tmp''")
    case False
    then show ?thesis using Cons [of es out] by simp
  next
    case True
    show ?thesis
    proof (cases "map_of es f")
      case None
      then show ?thesis using True by simp
    next
      case (Some x)
      show ?thesis
      proof (cases x)
        case (File a)
        have "set (fst (snd (remove_tmp fs (AList.delete f es, out @ [Deleted_tmp_file f]))))
            \<subseteq> set (AList.delete f es)"
          by (rule Cons)
        also have "\<dots> \<subseteq> set es" by (rule delete_subset)
        finally show ?thesis using True Some File by simp
      next
        case (Dir sub)
        then show ?thesis using True Some by simp
      qed
    qed
  qed
qed

lemma remove_tmp_keeps:
  "\<not> endswith k ''.tmp'' \<Longrightarrow> map_of (fst (snd (remove_tmp fs (es, out)))) k = map_of es k"
proof (induction fs arbitrary: es out)
  case Nil
  then show ?case by simp
next
  case (Cons f fs)
  then show ?case
    by (auto split: option.splits node.splits simp: AList.delete_conv)
qed

lemma reset_tmp_data: "reset_tmp w = Inr w1 \<Longrightarrow> data_dir w1 = data_dir w"
  by (auto simp: reset_tmp_def split: if_splits sum.splits)

lemma cleanup_files_data:
  "data_dir (final (cleanup_files w)) =
     (case data_dir w of
        Some (Dir es) \<Rightarrow>
          (case reset_tmp w of
             Inl e \<Rightarrow> Some (Dir es)
           | Inr w1 \<Rightarrow> Some (Dir (fst (snd (remove_tmp (map fst es) (es, stdout w1))))))
      | other \<Rightarrow> other)"
  by (auto simp: cleanup_files_def
      split: sum.splits option.splits node.splits prod.splits dest: reset_tmp_data)

text \<open>
  Claim C10. Whatever the world and whether the task returns or raises, the file cleanup
  task leaves every entry of the data directory whose name does not end in ".tmp" as it
  was, in the same order, and adds none; in particular \<^verbatim>\<open>movies.csv\<close> and
  \<^verbatim>\<open>ratings.csv\<close> read the same before and after.
\<close>

theorem cleanup_files_frame:
  "filter not_tmp (entries (data_dir (final (cleanup_files w)))) =
     filter not_tmp (entries (data_dir w))
   \<and> set (entries (data_dir (final (cleanup_files w)))) \<subseteq> set (entries (data_dir w))
   \<and> read_file (data_dir (final (cleanup_files w))) ''movies.csv'' =
       read_file (data_dir w) ''movies.csv''
   \<and> read_file (data_dir (final (cleanup_files w))) ''ratings.csv'' =
       read_file (data_dir w) ''ratings.csv''"
proof -
  have k1: "\<not> endswith ''movies.csv'' ''.tmp''" by (simp add: endswith_def)
  have k2: "\<not> endswith ''ratings.csv'' ''.tmp''" by (simp add: endswith_def)
  show ?thesis
    unfolding cleanup_files_data
    by (auto simp: entries_def read_file_def remove_tmp_filter
        remove_tmp_keeps [OF k1] remove_tmp_keeps [OF k2]
        split: option.splits node.splits sum.splits dest: subsetD [OF remove_tmp_subset])
qed

theorem cleanup_files_frame_witness:
  "read_file (data_dir (final (cleanup_files example_world))) ''movies.csv'' =
     read_file (data_dir example_world) ''movies.csv''
   \<and> map fst (entries (data_dir (final (cleanup_files example_world)))) =
       [''movies.csv'', ''ratings.csv'']"
  using cleanup_files_frame [of example_world]
  by (simp add: example_world_def cleanup_files_def reset_tmp_def endswith_def entries_def)

section \<open>File cleanup: what is removed\<close>

lemma remove_tmp_all_files:
  assumes "distinct fs" "set fs \<subseteq> fst ` set es"
    and "\<forall>e\<in>set es. endswith (fst e) ''.tmp'' \<longrightarrow> is_File (snd e)"
  shows "remove_tmp fs (es, out) =
     (None, filter (\<lambda>e. \<not> (fst e \<in> set fs \<and> endswith (fst e) ''.tmp'')) es,
      out @ map Deleted_tmp_file (filter (\<lambda>f. endswith f ''.tmp'') fs))"
  using assms
proof (induction fs arbitrary: es out)
  case Nil
  then show ?case by simp
next
  case (Cons f fs)
  show ?case
  proof (cases "endswith f ''.tmp''")
    case False
    have "remove_tmp fs (es, out) =
        (None, filter (\<lambda>e. \<not> (fst e \<in> set fs \<and> endswith (fst e) ''.tmp'')) es,
         out @ map Deleted_tmp_file (filter (\<lambda>f. endswith f ''.tmp'') fs))"
      using Cons.prems by (intro Cons.IH) auto
    moreover have "filter (\<lambda>e. \<not> (fst e \<in> set fs \<and> endswith (fst e) ''.tmp'')) es =
          filter (\<lambda>e. \<not> (fst e \<in> set (f # fs) \<and> endswith (fst e) ''.tmp'')) es"
      using False by (intro filter_cong) auto
    ultimately show ?thesis using False by simp
  next
    case True
    from Cons.prems obtain v where v: "(f, v) \<in> set es" by auto
    then obtain x where x: "map_of es f = Some x"
      by (metis weak_map_of_SomeI)
    then have "(f, x) \<in> set es" by (rule map_of_SomeD)
    with Cons.prems True have "is_File x" by fastforce
    then obtain a where a: "x = File a" by (cases x) (auto simp: is_File_def)
    let ?es = "AList.delete f es"
    have sub: "set fs \<subseteq> fst ` set ?es"
    proof
      fix k assume k: "k \<in> set fs"
      with Cons.prems have "k \<noteq> f" "k \<in> fst ` set es" by auto
      then obtain b where "(k, b) \<in> set es" by auto
      with \<open>k \<noteq> f\<close> have "(k, b) \<in> set ?es" by (auto simp: AList.delete_eq)
      then show "k \<in> fst ` set ?es" by force
    qed
    have fl: "\<forall>e\<in>set ?es. endswith (fst e) ''.tmp'' \<longrightarrow> is_File (snd e)"
      using Cons.prems by (auto simp: AList.delete_eq)
    have "remove_tmp fs (?es, out @ [Deleted_tmp_file f]) =
        (None, filter (\<lambda>e. \<not> (fst e \<in> set fs \<and> endswith (fst e) ''.tmp'')) ?es,
         (out @ [Deleted_tmp_file f]) @ map Deleted_tmp_file (filter (\<lambda>f. endswith f ''.tmp'') fs))"
      using Cons.prems sub fl by (intro Cons.IH) auto
    moreover have "filter (\<lambda>e. \<not> (fst e \<in> set fs \<and> endswith (fst e) ''.tmp'')) ?es =
         filter (\<lambda>e. \<not> (fst e \<in> set (f # fs) \<and> endswith (fst e) ''.tmp'')) es"
      using True by (auto simp: AList.delete_eq intro: filter_cong)
    ultimately show ?thesis using True x a by simp
  qed
qed

lemma remove_tmp_listing:
  assumes "distinct (map fst es)"
    and "\<forall>e\<in>set es. endswith (fst e) ''.tmp'' \<longrightarrow> is_File (snd e)"
  shows "remove_tmp (map fst es) (es, out) =
     (None, filter not_tmp es,
      out @ map Deleted_tmp_file (filter (\<lambda>f. endswith f ''.tmp'') (map fst es)))"
proof -
  have "remove_tmp (map fst es) (es, out) =
      (None, filter (\<lambda>e. \<not> (fst e \<in> set (map fst es) \<and> endswith (fst e) ''.tmp'')) es,
       out @ map Deleted_tmp_file (filter (\<lambda>f. endswith f ''.tmp'') (map fst es)))"
    using assms by (intro remove_tmp_all_files) auto
  moreover have "filter (\<lambda>e. \<not> (fst e \<in> set (map fst es) \<and> endswith (fst e) ''.tmp'')) es =
      filter not_tmp es"
    by (intro filter_cong) (auto simp: not_tmp_def)
  ultimately show ?thesis by simp
qed

text \<open>
  Claim C7, as the code has it. The scratch directory is reset only under the guard
  \<^verbatim>\<open>if os.path.exists(tmp_dir)\<close>. So, when the scratch path is absent or a directory,
  and the data directory exists with every entry named "*.tmp" a regular file, the file
  cleanup task returns; a scratch directory that existed is left existing and empty, an
  absent one is left absent (it is not created); the data directory keeps exactly its
  entries whose names do not end in ".tmp"; and the log names the reset, if there was
  one, and every file deleted.
\<close>

theorem cleanup_files_resets_existing_scratch:
  assumes "tmp_dir w = None \<or> tmp_dir w = Some (Dir ts)"
    and "data_dir w = Some (Dir es)"
    and "distinct (map fst es)"
    and "\<forall>e\<in>set es. endswith (fst e) ''.tmp'' \<longrightarrow> is_File (snd e)"
  shows "cleanup_files w =
           Done (w\<lparr>data_dir := Some (Dir (filter not_tmp es)),
                   tmp_dir := (if tmp_dir w = None then None else Some (Dir [])),
                   stdout := stdout w
                     @ (if tmp_dir w = None then [] else [Reset_tmp_directory])
                     @ map Deleted_tmp_file (filter (\<lambda>f. endswith f ''.tmp'') (map fst es))\<rparr>)"
  using assms(1,2) remove_tmp_listing [OF assms(3,4)]
  by (auto simp: cleanup_files_def reset_tmp_def rmtree_ignore_errors_def makedirs_exist_ok_def
      print_line_def)

theorem cleanup_files_resets_existing_scratch_witness:
  "tmp_dir (final (cleanup_files example_world_scratch)) = Some (Dir [])
   \<and> map fst (entries (data_dir (final (cleanup_files example_world_scratch)))) =
       [''movies.csv'', ''ratings.csv'']
   \<and> stdout (final (cleanup_files example_world_scratch)) =
       [Reset_tmp_directory, Deleted_tmp_file ''part.tmp'']
   \<and> tmp_dir (final (cleanup_files example_world)) = None"
  using cleanup_files_resets_existing_scratch
      [of example_world_scratch "[(''scratch.bin'', File (Blob ''y''))]"
          "entries (data_dir example_world)"]
    cleanup_files_resets_existing_scratch
      [of example_world "[]" "entries (data_dir example_world)"]
  by (simp add: example_world_scratch_def example_world_def entries_def is_File_def
      endswith_def not_tmp_def)

text \<open>The claim as the specification words it fails where the scratch directory is
  absent: the task returns and the directory is still absent.\<close>

theorem cleanup_files_absent_scratch_counterexample:
  "is_Done (cleanup_files example_world)
   \<and> tmp_dir example_world = None
   \<and> tmp_dir (final (cleanup_files example_world)) = None"
  by (simp add: example_world_def cleanup_files_def reset_tmp_def endswith_def)

section \<open>The analysis query\<close>

lemma set_insert_by: "set (insert_by le x ys) = insert x (set ys)"
  by (induction ys) auto

lemma set_sort_by: "set (sort_by le xs) = set xs"
  by (induction xs) (auto simp: sort_by_def set_insert_by)

lemma length_insert_by: "length (insert_by le x ys) = Suc (length ys)"
  by (induction ys) auto

lemma length_sort_by: "length (sort_by le xs) = length xs"
  by (induction xs) (auto simp: sort_by_def length_insert_by)

lemma sort_by_Nil_iff: "sort_by le xs = [] \<longleftrightarrow> xs = []"
  using length_sort_by [of le xs] by (metis length_0_conv)

lemma analysis_query_Nil_iff: "analysis_query rows = [] \<longleftrightarrow> rows = []"
  by (simp add: analysis_query_def sort_by_Nil_iff)

lemma distinct_insert_by:
  "distinct (map f (insert_by le x ys)) \<longleftrightarrow> f x \<notin> f ` set ys \<and> distinct (map f ys)"
  by (induction ys) (auto simp: set_insert_by)

lemma distinct_sort_by: "distinct (map f (sort_by le xs)) \<longleftrightarrow> distinct (map f xs)"
  by (induction xs) (auto simp: sort_by_def distinct_insert_by set_insert_by set_sort_by [unfolded sort_by_def])

lemma sorted_insert_by:
  assumes tot: "\<And>a b. le a b \<or> le b a" and tr: "\<And>a b c. le a b \<Longrightarrow> le b c \<Longrightarrow> le a c"
  shows "sorted_wrt le ys \<Longrightarrow> sorted_wrt le (insert_by le x ys)"
proof (induction ys)
  case Nil
  then show ?case by simp
next
  case (Cons y ys)
  show ?case
  proof (cases "le x y")
    case True
    with Cons.prems show ?thesis by (auto intro: tr)
  next
    case False
    with tot have "le y x" by blast
    with Cons False show ?thesis by (auto simp: set_insert_by)
  qed
qed

lemma sorted_sort_by:
  assumes tot: "\<And>a b. le a b \<or> le b a" and tr: "\<And>a b c. le a b \<Longrightarrow> le b c \<Longrightarrow> le a c"
  shows "sorted_wrt le (sort_by le xs)"
  by (induction xs) (auto simp: sort_by_def intro: sorted_insert_by [OF tot tr])

lemma order_by_total: "order_by a b \<or> order_by b a"
  by (cases "ag_avg_rating a"; cases "ag_avg_rating b") (auto simp: order_by_def)

lemma desc_before_trans: "desc_before a b \<Longrightarrow> desc_before b c \<Longrightarrow> desc_before a c"
  by (cases a; cases b; cases c) auto

lemma order_by_trans: "order_by a b \<Longrightarrow> order_by b c \<Longrightarrow> order_by a c"
  unfolding order_by_def using desc_before_trans [of "ag_avg_rating a" "ag_avg_rating b" "ag_avg_rating c"]
  by auto

lemma sorted_analysis_query: "sorted_wrt order_by (analysis_query rows)"
  unfolding analysis_query_def by (rule sorted_sort_by [OF order_by_total order_by_trans])

lemma title_group_row: "ag_title (group_row rows t) = t"
  by (simp add: group_row_def Let_def)

lemma distinct_titles_analysis_query: "distinct (map ag_title (analysis_query rows))"
proof -
  have "map (ag_title \<circ> group_row rows) ts = ts" for ts
    by (induction ts) (simp_all add: title_group_row)
  then show ?thesis
    by (simp add: analysis_query_def distinct_sort_by)
qed

lemma titles_analysis_query: "ag_title ` set (analysis_query rows) = ft_title ` set rows"
  by (simp add: analysis_query_def set_sort_by image_image title_group_row)

lemma group_analysis_query:
  assumes "g \<in> set (analysis_query rows)"
  shows "g = group_row rows (ag_title g)"
proof -
  from assms obtain t where "g = group_row rows t"
    by (auto simp: analysis_query_def set_sort_by)
  then show ?thesis by (simp add: title_group_row)
qed

lemma simple_analysis_empty:
  "fact_movie_ratings w = Some [] \<Longrightarrow> \<not> is_Done (simple_analysis plt w)"
  by (auto simp: simple_analysis_def analysis_query_Nil_iff reraise_def split: sum.splits)

lemma analysis_query_example_fact2: "analysis_query example_fact2 =
   [\<lparr>ag_title = Some ''C'', ag_avg_rating = None, ag_n = 1\<rparr>,
    \<lparr>ag_title = Some ''B'', ag_avg_rating = Some 5, ag_n = 1\<rparr>,
    \<lparr>ag_title = Some ''A'', ag_avg_rating = Some (333 / 100), ag_n = 3\<rparr>]"
  by code_simp

text \<open>
  Claim C5. The analysis query returns one row per title of the fact table and no other;
  each row carries the mean of the ratings of the rows with that title (as SQL \<open>avg\<close>
  computes it), rounded to two decimals, and the number of those rows; the rows are in
  the order "mean descending, then count descending". A non-empty fact table gives a
  non-empty result, and when the result is empty the analysis task does not return.
\<close>

theorem analysis_query_groups_ordered:
  "distinct (map ag_title (analysis_query rows))
   \<and> ag_title ` set (analysis_query rows) = ft_title ` set rows
   \<and> (\<forall>g \<in> set (analysis_query rows).
        ag_avg_rating g =
          map_option round2 (sql_avg (map ft_rating (filter (\<lambda>f. ft_title f = ag_title g) rows)))
        \<and> ag_n g = length (filter (\<lambda>f. ft_title f = ag_title g) rows))
   \<and> sorted_wrt order_by (analysis_query rows)
   \<and> (rows \<noteq> [] \<longrightarrow> analysis_query rows \<noteq> [])
   \<and> (fact_movie_ratings w = Some rows \<and> analysis_query rows = [] \<longrightarrow>
        \<not> is_Done (simple_analysis plt w))"
proof -
  have "ag_avg_rating g =
          map_option round2 (sql_avg (map ft_rating (filter (\<lambda>f. ft_title f = ag_title g) rows)))
        \<and> ag_n g = length (filter (\<lambda>f. ft_title f = ag_title g) rows)"
    if "g \<in> set (analysis_query rows)" for g
  proof -
    have "g = group_row rows (ag_title g)" using that by (rule group_analysis_query)
    then have "ag_avg_rating g = ag_avg_rating (group_row rows (ag_title g))"
      "ag_n g = ag_n (group_row rows (ag_title g))" by simp_all
    then show ?thesis by (simp add: group_row_def Let_def)
  qed
  moreover have "\<not> is_Done (simple_analysis plt w)"
    if "fact_movie_ratings w = Some rows" "analysis_query rows = []"
    using that simple_analysis_empty [of w plt] by (simp add: analysis_query_Nil_iff)
  ultimately show ?thesis
    using distinct_titles_analysis_query [of rows] titles_analysis_query [of rows]
      sorted_analysis_query [of rows]
    by (simp add: analysis_query_Nil_iff)
qed


theorem analysis_query_groups_ordered_witness:
  "map ag_title (analysis_query example_fact2) = [Some ''C'', Some ''B'', Some ''A'']
   \<and> sorted_wrt order_by (analysis_query example_fact2)
   \<and> \<not> is_Done (simple_analysis (\<lambda>df. None) (example_world\<lparr>fact_movie_ratings := Some []\<rparr>))"
proof -
  note t = analysis_query_groups_ordered [of example_fact2 undefined undefined]
  have a: "sorted_wrt order_by (analysis_query example_fact2)"
    by (rule t [THEN conjunct2, THEN conjunct2, THEN conjunct2, THEN conjunct1])
  have b: "\<not> is_Done (simple_analysis (\<lambda>df. None) (example_world\<lparr>fact_movie_ratings := Some []\<rparr>))"
    using analysis_query_groups_ordered [of "[]" "example_world\<lparr>fact_movie_ratings := Some []\<rparr>" "\<lambda>df. None"]
    by (simp add: analysis_query_Nil_iff)
  show ?thesis using a b by (simp add: analysis_query_example_fact2)
qed

section \<open>The analysis task and its artifacts\<close>

lemma read_after_write:
  "write_file d name a = Inr d' \<Longrightarrow> read_file d' name = Inr a"
  by (auto simp: write_file_def read_file_def update_conv' split: option.splits node.splits)

lemma read_after_write_other:
  "write_file d name' b = Inr d' \<Longrightarrow> name' \<noteq> name \<Longrightarrow> read_file d' name = read_file d name"
  by (auto simp: write_file_def read_file_def update_conv' split: option.splits node.splits)

lemma png_not_csv: "''avg_ratings_top10.png'' \<noteq> ''avg_ratings.csv''"
  by simp

lemma simple_analysis_makedirs:
  "output_dir w = None \<Longrightarrow>
   simple_analysis plt w = simple_analysis plt (w\<lparr>output_dir := Some (Dir [])\<rparr>)"
  by (simp add: simple_analysis_def makedirs_exist_ok_def)

lemma write_into_empty: "write_file (Some (Dir [])) name a = Inr (Some (Dir [(name, File a)]))"
  by (simp add: write_file_def)

lemma analysis_query_example_fact:
  "analysis_query example_fact = [\<lparr>ag_title = Some ''A'', ag_avg_rating = Some 3, ag_n = 2\<rparr>]"
  by (simp add: example_fact_def analysis_query_def group_row_def sql_avg_def round2_3 sort_by_def)

text \<open>The analysis task once the CSV is written: the three ways the plotting step ends.\<close>

lemma simple_analysis_after_csv:
  assumes mk: "makedirs_exist_ok (output_dir w) = Inr od"
    and tb: "fact_movie_ratings w = Some rows"
    and ne: "analysis_query rows \<noteq> []"
    and wr: "write_file od ''avg_ratings.csv'' (AvgRatingsCsv (analysis_query rows)) = Inr od2"
  shows "simple_analysis plt w =
    (let df = analysis_query rows;
         w2 = w\<lparr>output_dir := od2,
                stdout := stdout w @ [Analysis_row_count (length df), Wrote_full_CSV]\<rparr>
     in case plt (top10_of df) of
          Some e \<Rightarrow> Done (print_line (Plotting_skipped e) w2)
        | None \<Rightarrow>
            (case write_file od2 ''avg_ratings_top10.png'' (Top10Png (top10_of df)) of
               Inl e \<Rightarrow> Done (print_line (Plotting_skipped e) w2)
             | Inr od3 \<Rightarrow> Done (print_line Wrote_PNG (w2\<lparr>output_dir := od3\<rparr>))))"
  using assms
  by (simp add: simple_analysis_def Let_def print_line_def split: option.splits sum.splits)

lemma simple_analysis_writes_csv:
  assumes mk: "makedirs_exist_ok (output_dir w) = Inr od"
    and tb: "fact_movie_ratings w = Some rows"
    and ne: "analysis_query rows \<noteq> []"
    and wr: "write_file od ''avg_ratings.csv'' (AvgRatingsCsv (analysis_query rows)) = Inr od2"
  shows "is_Done (simple_analysis plt w)
     \<and> read_file (output_dir (final (simple_analysis plt w))) ''avg_ratings.csv'' =
         Inr (AvgRatingsCsv (analysis_query rows))
     \<and> (\<forall>e. plt (top10_of (analysis_query rows)) = Some e \<longrightarrow>
          simple_analysis plt w =
            Done (w\<lparr>output_dir := od2,
                    stdout := stdout w @ [Analysis_row_count (length (analysis_query rows)),
                                          Wrote_full_CSV, Plotting_skipped e]\<rparr>))
     \<and> (\<forall>e. plt (top10_of (analysis_query rows)) = None \<and>
             write_file od2 ''avg_ratings_top10.png''
               (Top10Png (top10_of (analysis_query rows))) = Inl e \<longrightarrow>
          simple_analysis plt w =
            Done (w\<lparr>output_dir := od2,
                    stdout := stdout w @ [Analysis_row_count (length (analysis_query rows)),
                                          Wrote_full_CSV, Plotting_skipped e]\<rparr>))"
proof -
  let ?df = "analysis_query rows"
  have csv: "read_file od2 ''avg_ratings.csv'' = Inr (AvgRatingsCsv ?df)"
    using wr by (rule read_after_write)
  note sa = simple_analysis_after_csv [OF mk tb ne wr, of plt]
  show ?thesis
  proof (cases "plt (top10_of ?df)")
    case (Some e)
    then show ?thesis using csv by (simp add: sa Let_def print_line_def)
  next
    case None
    show ?thesis
    proof (cases "write_file od2 ''avg_ratings_top10.png'' (Top10Png (top10_of ?df))")
      case (Inl e)
      then show ?thesis using csv None by (simp add: sa Let_def print_line_def)
    next
      case (Inr od3)
      have "read_file od3 ''avg_ratings.csv'' = read_file od2 ''avg_ratings.csv''"
        using Inr png_not_csv by (rule read_after_write_other)
      then show ?thesis using csv None Inr by (simp add: sa Let_def print_line_def)
    qed
  qed
qed

text \<open>
  Claim C6. When the output directory can be made, the fact table exists, the query
  result is not empty and \<^verbatim>\<open>avg_ratings.csv\<close> can be written, the analysis task
  returns for every behaviour of the plotting step, and \<^verbatim>\<open>avg_ratings.csv\<close> then holds
  the full query result. When matplotlib raises, or saving the figure fails, the task
  returns with exactly the world that the CSV write left and with the exception as the
  last line of its log.
\<close>

theorem plot_failure_is_swallowed:
  assumes mk: "makedirs_exist_ok (output_dir w) = Inr od"
    and tb: "fact_movie_ratings w = Some rows"
    and ne: "analysis_query rows \<noteq> []"
    and wr: "write_file od ''avg_ratings.csv'' (AvgRatingsCsv (analysis_query rows)) = Inr od2"
  shows "is_Done (simple_analysis plt w)
     \<and> read_file (output_dir (final (simple_analysis plt w))) ''avg_ratings.csv'' =
         Inr (AvgRatingsCsv (analysis_query rows))
     \<and> (\<forall>e. plt (top10_of (analysis_query rows)) = Some e \<longrightarrow>
          simple_analysis plt w =
            Done (w\<lparr>output_dir := od2,
                    stdout := stdout w @ [Analysis_row_count (length (analysis_query rows)),
                                          Wrote_full_CSV, Plotting_skipped e]\<rparr>))
     \<and> (\<forall>e. plt (top10_of (analysis_query rows)) = None \<and>
             write_file od2 ''avg_ratings_top10.png''
               (Top10Png (top10_of (analysis_query rows))) = Inl e \<longrightarrow>
          simple_analysis plt w =
            Done (w\<lparr>output_dir := od2,
                    stdout := stdout w @ [Analysis_row_count (length (analysis_query rows)),
                                          Wrote_full_CSV, Plotting_skipped e]\<rparr>))"
  using assms by (rule simple_analysis_writes_csv)

theorem plot_failure_is_swallowed_witness:
  "simple_analysis (\<lambda>df. Some PlotError) example_world_merged =
     Done (example_world_merged\<lparr>output_dir := Some (Dir [(''avg_ratings.csv'',
        File (AvgRatingsCsv [\<lparr>ag_title = Some ''A'', ag_avg_rating = Some 3, ag_n = 2\<rparr>]))]),
        stdout := [Analysis_row_count 1, Wrote_full_CSV, Plotting_skipped PlotError]\<rparr>)"
proof -
  have mk: "makedirs_exist_ok (output_dir example_world_merged) = Inr (Some (Dir []))"
    by (simp add: example_world_merged_def example_world_def makedirs_exist_ok_def)
  have tb: "fact_movie_ratings example_world_merged = Some example_fact"
    by (simp add: example_world_merged_def)
  have ne: "analysis_query example_fact \<noteq> []"
    by (simp add: analysis_query_example_fact)
  have st: "stdout example_world_merged = []"
    by (simp add: example_world_merged_def example_world_def)
  from plot_failure_is_swallowed [OF mk tb ne write_into_empty, of "\<lambda>df. Some PlotError"]
  show ?thesis by (simp add: analysis_query_example_fact st)
qed

text \<open>
  Claim C9. When the output directory is absent, the analysis task runs exactly as it
  does on an existing empty output directory; the directory exists afterwards whether
  the task returns or raises; and with a non-empty fact table the task returns and
  \<^verbatim>\<open>avg_ratings.csv\<close> in that directory holds the query result.
\<close>

theorem analysis_creates_output_dir:
  assumes "output_dir w = None"
  shows "simple_analysis plt w = simple_analysis plt (w\<lparr>output_dir := Some (Dir [])\<rparr>)
    \<and> output_dir (final (simple_analysis plt w)) \<noteq> None
    \<and> (\<forall>rows. fact_movie_ratings w = Some rows \<and> rows \<noteq> [] \<longrightarrow>
          is_Done (simple_analysis plt w)
          \<and> read_file (output_dir (final (simple_analysis plt w))) ''avg_ratings.csv'' =
              Inr (AvgRatingsCsv (analysis_query rows)))"
proof -
  have mk: "makedirs_exist_ok (output_dir w) = Inr (Some (Dir []))"
    using assms by (simp add: makedirs_exist_ok_def)
  have a: "simple_analysis plt w = simple_analysis plt (w\<lparr>output_dir := Some (Dir [])\<rparr>)"
    using assms by (rule simple_analysis_makedirs)
  have b: "output_dir (final (simple_analysis plt w)) \<noteq> None"
    using mk
    by (auto simp: simple_analysis_def write_file_def Let_def reraise_def
        split: option.splits sum.splits)
  have c: "is_Done (simple_analysis plt w)
          \<and> read_file (output_dir (final (simple_analysis plt w))) ''avg_ratings.csv'' =
              Inr (AvgRatingsCsv (analysis_query rows))"
    if "fact_movie_ratings w = Some rows" "rows \<noteq> []" for rows
  proof -
    have "analysis_query rows \<noteq> []" using that(2) by (simp add: analysis_query_Nil_iff)
    from simple_analysis_writes_csv [OF mk that(1) this write_into_empty] show ?thesis by simp
  qed
  from a b c show ?thesis by blast
qed

theorem analysis_creates_output_dir_witness:
  "is_Done (simple_analysis (\<lambda>df. None) example_world_merged)
   \<and> read_file (output_dir (final (simple_analysis (\<lambda>df. None) example_world_merged)))
        ''avg_ratings.csv'' =
       Inr (AvgRatingsCsv [\<lparr>ag_title = Some ''A'', ag_avg_rating = Some 3, ag_n = 2\<rparr>])"
proof -
  have od: "output_dir example_world_merged = None"
    by (simp add: example_world_merged_def example_world_def)
  have tb: "fact_movie_ratings example_world_merged = Some example_fact \<and> example_fact \<noteq> []"
    by (simp add: example_world_merged_def example_fact_def)
  from analysis_creates_output_dir [OF od, of "\<lambda>df. None"] tb
  have "is_Done (simple_analysis (\<lambda>df. None) example_world_merged)
   \<and> read_file (output_dir (final (simple_analysis (\<lambda>df. None) example_world_merged)))
        ''avg_ratings.csv'' = Inr (AvgRatingsCsv (analysis_query example_fact))"
    by blast
  then show ?thesis by (simp add: analysis_query_example_fact)
qed

section \<open>Running the graph twice\<close>

lemma and_then_Done:
  "and_then r f = Done w' \<longleftrightarrow> (\<exists>w. r = Done w \<and> f w = Done w')"
  by (cases r) (simp_all add: and_then_def)

lemma ingest_movies_Done:
  assumes "ingest_movies w = Done w'"
  shows "w' = w\<lparr>stg_movies := stg_movies w', stdout := stdout w'\<rparr>"
    and "read_file (data_dir v) ''movies.csv'' = read_file (data_dir w) ''movies.csv'' \<Longrightarrow>
         \<exists>l. ingest_movies v = Done (v\<lparr>stg_movies := stg_movies w', stdout := l\<rparr>)"
  using assms
  by (auto simp: ingest_movies_def Let_def print_line_def
      split: sum.splits artifact.splits if_splits)

lemma ingest_ratings_Done:
  assumes "ingest_ratings w = Done w'"
  shows "w' = w\<lparr>stg_ratings := stg_ratings w', stdout := stdout w'\<rparr>"
    and "read_file (data_dir v) ''ratings.csv'' = read_file (data_dir w) ''ratings.csv'' \<Longrightarrow>
         \<exists>l. ingest_ratings v = Done (v\<lparr>stg_ratings := stg_ratings w', stdout := l\<rparr>)"
  using assms
  by (auto simp: ingest_ratings_def Let_def print_line_def
      split: sum.splits artifact.splits if_splits)

lemma merge_transform_Done:
  assumes "merge_transform w = Done w'"
  shows "w' = w\<lparr>fact_movie_ratings := fact_movie_ratings w', stdout := stdout w'\<rparr>"
    and "stg_movies v = stg_movies w \<Longrightarrow> stg_ratings v = stg_ratings w \<Longrightarrow>
         \<exists>l. merge_transform v =
                Done (v\<lparr>fact_movie_ratings := fact_movie_ratings w', stdout := l\<rparr>)"
  using assms
  by (auto simp: merge_transform_def Let_def print_line_def split: option.splits)

lemma validate_rowcount_py_Done:
  assumes "validate_rowcount_py w = Done w'"
  shows "w' = w\<lparr>stdout := stdout w'\<rparr>"
    and "\<exists>rows. fact_movie_ratings w = Some rows \<and> rows \<noteq> []"
    and "fact_movie_ratings v = fact_movie_ratings w \<Longrightarrow>
         \<exists>l. validate_rowcount_py v = Done (v\<lparr>stdout := l\<rparr>)"
  using assms
  by (auto simp: validate_rowcount_py_def Let_def print_line_def
      split: option.splits if_splits)

lemma write_file_Inr:
  assumes "write_file d name a = Inr d'"
  shows "\<exists>es. d' = Some (Dir es) \<and> map_of es name = Some (File a)"
  using assms
  by (auto simp: write_file_def update_conv' split: option.splits node.splits)

lemma write_file_again:
  assumes "d = Some (Dir es)" "map_of es name = Some (File b)"
  shows "\<exists>d'. write_file d name a = Inr d'"
  using assms by (simp add: write_file_def)

lemma write_file_keeps_file:
  assumes "write_file d name' b = Inr d'" "d = Some (Dir es)"
    "map_of es name = Some (File a)" "name' \<noteq> name"
  shows "\<exists>es'. d' = Some (Dir es') \<and> map_of es' name = Some (File a)"
  using assms
  by (auto simp: write_file_def update_conv' split: option.splits node.splits)

lemma simple_analysis_Done:
  assumes "simple_analysis plt w = Done w'"
  shows "w' = w\<lparr>output_dir := output_dir w', stdout := stdout w'\<rparr>"
    and "\<exists>es rows. output_dir w' = Some (Dir es) \<and> fact_movie_ratings w = Some rows \<and>
          map_of es ''avg_ratings.csv'' = Some (File (AvgRatingsCsv (analysis_query rows)))"
proof -
  from assms obtain od where mk: "makedirs_exist_ok (output_dir w) = Inr od"
    by (auto simp: simple_analysis_def split: sum.splits)
  from assms mk obtain rows where tb: "fact_movie_ratings w = Some rows"
    by (cases "fact_movie_ratings w") (auto simp: simple_analysis_def Let_def reraise_def)
  from assms mk tb have ne: "analysis_query rows \<noteq> []"
    by (auto simp: simple_analysis_def Let_def reraise_def split: if_splits)
  from assms mk tb ne obtain od2 where
    wr: "write_file od ''avg_ratings.csv'' (AvgRatingsCsv (analysis_query rows)) = Inr od2"
    by (auto simp: simple_analysis_def Let_def reraise_def split: sum.splits)
  from write_file_Inr [OF wr] obtain es where
    es: "od2 = Some (Dir es)"
      "map_of es ''avg_ratings.csv'' = Some (File (AvgRatingsCsv (analysis_query rows)))"
    by blast
  from assms simple_analysis_after_csv [OF mk tb ne wr, of plt]
  have alt: "(\<exists>l. w' = w\<lparr>output_dir := od2, stdout := l\<rparr>) \<or>
        (\<exists>od3 l. write_file od2 ''avg_ratings_top10.png''
                   (Top10Png (top10_of (analysis_query rows))) = Inr od3
              \<and> w' = w\<lparr>output_dir := od3, stdout := l\<rparr>)"
    by (auto simp: Let_def print_line_def split: option.splits sum.splits)
  then show "w' = w\<lparr>output_dir := output_dir w', stdout := stdout w'\<rparr>"
    by auto
  from alt
  show "\<exists>es rows. output_dir w' = Some (Dir es) \<and> fact_movie_ratings w = Some rows \<and>
          map_of es ''avg_ratings.csv'' = Some (File (AvgRatingsCsv (analysis_query rows)))"
  proof
    assume "\<exists>l. w' = w\<lparr>output_dir := od2, stdout := l\<rparr>"
    then show ?thesis using es tb by auto
  next
    assume "\<exists>od3 l. write_file od2 ''avg_ratings_top10.png''
                   (Top10Png (top10_of (analysis_query rows))) = Inr od3
              \<and> w' = w\<lparr>output_dir := od3, stdout := l\<rparr>"
    then obtain od3 l where o3: "write_file od2 ''avg_ratings_top10.png''
        (Top10Png (top10_of (analysis_query rows))) = Inr od3"
       "w' = w\<lparr>output_dir := od3, stdout := l\<rparr>" by blast
    from write_file_keeps_file [OF o3(1) es(1) es(2) png_not_csv]
    show ?thesis using o3(2) tb by auto
  qed
qed

lemma remove_tmp_None_filter:
  "remove_tmp fs (es, out) = (None, es', out') \<Longrightarrow>
   es' = filter (\<lambda>e. \<not> (fst e \<in> set fs \<and> endswith (fst e) ''.tmp'')) es"
proof (induction fs arbitrary: es out)
  case Nil
  then show ?case by simp
next
  case (Cons f fs)
  show ?case
  proof (cases "endswith f ''.tmp''")
    case False
    with Cons.prems have "remove_tmp fs (es, out) = (None, es', out')" by simp
    then have "es' = filter (\<lambda>e. \<not> (fst e \<in> set fs \<and> endswith (fst e) ''.tmp'')) es"
      by (rule Cons.IH)
    also have "\<dots> = filter (\<lambda>e. \<not> (fst e \<in> set (f # fs) \<and> endswith (fst e) ''.tmp'')) es"
      using False by (intro filter_cong) auto
    finally show ?thesis .
  next
    case True
    with Cons.prems obtain a where a: "map_of es f = Some (File a)"
      and r: "remove_tmp fs (AList.delete f es, out @ [Deleted_tmp_file f]) = (None, es', out')"
      by (auto split: option.splits node.splits)
    from r have "es' = filter (\<lambda>e. \<not> (fst e \<in> set fs \<and> endswith (fst e) ''.tmp''))
        (AList.delete f es)"
      by (rule Cons.IH)
    also have "\<dots> = filter (\<lambda>e. \<not> (fst e \<in> set (f # fs) \<and> endswith (fst e) ''.tmp'')) es"
      using True by (auto simp: AList.delete_eq intro: filter_cong)
    finally show ?thesis .
  qed
qed

lemma remove_tmp_nothing:
  "\<forall>f\<in>set fs. \<not> endswith f ''.tmp'' \<Longrightarrow> remove_tmp fs (es, out) = (None, es, out)"
  by (induction fs arbitrary: es out) auto

lemma reset_tmp_again:
  assumes "tmp_dir v = None \<or> tmp_dir v = Some (Dir [])"
  shows "\<exists>l. reset_tmp v = Inr (v\<lparr>stdout := l\<rparr>)"
  using assms
proof
  assume "tmp_dir v = None"
  then have "reset_tmp v = Inr (v\<lparr>stdout := stdout v\<rparr>)"
    by (simp add: reset_tmp_def)
  then show ?thesis ..
next
  assume t: "tmp_dir v = Some (Dir [])"
  then have "v\<lparr>tmp_dir := Some (Dir [])\<rparr> = v" by (cases v) simp
  with t have "reset_tmp v = Inr (v\<lparr>stdout := stdout v @ [Reset_tmp_directory]\<rparr>)"
    by (simp add: reset_tmp_def rmtree_ignore_errors_def makedirs_exist_ok_def print_line_def)
  then show ?thesis ..
qed

lemma reset_tmp_Inr:
  assumes "reset_tmp w = Inr w1"
  shows "w1 = w\<lparr>tmp_dir := tmp_dir w1, stdout := stdout w1\<rparr>"
    and "tmp_dir w1 = None \<or> tmp_dir w1 = Some (Dir [])"
  using assms
  by (auto simp: reset_tmp_def rmtree_ignore_errors_def makedirs_exist_ok_def print_line_def
      split: if_splits option.splits node.splits sum.splits)

lemma cleanup_files_Done:
  assumes "cleanup_files w = Done w'"
  shows "w' = w\<lparr>data_dir := data_dir w', tmp_dir := tmp_dir w', stdout := stdout w'\<rparr>"
    and "data_dir v = data_dir w' \<Longrightarrow> tmp_dir v = tmp_dir w' \<Longrightarrow>
         \<exists>l. cleanup_files v = Done (v\<lparr>stdout := l\<rparr>)"
proof -
  from assms obtain w1 where rs: "reset_tmp w = Inr w1"
    by (auto simp: cleanup_files_def split: sum.splits)
  from assms rs obtain es where es: "data_dir w1 = Some (Dir es)"
    by (auto simp: cleanup_files_def split: option.splits node.splits)
  from assms rs es obtain es' out where
    rm: "remove_tmp (map fst es) (es, stdout w1) = (None, es', out)"
    and w': "w' = w1\<lparr>data_dir := Some (Dir es'), stdout := out\<rparr>"
    by (auto simp: cleanup_files_def split: prod.splits option.splits)
  from reset_tmp_Inr(1) [OF rs] obtain t l where "w1 = w\<lparr>tmp_dir := t, stdout := l\<rparr>" by blast
  with w' have "w' = w\<lparr>tmp_dir := t, data_dir := Some (Dir es'), stdout := out\<rparr>" by simp
  then show "w' = w\<lparr>data_dir := data_dir w', tmp_dir := tmp_dir w', stdout := stdout w'\<rparr>"
    by (cases w) simp
  have "es' = filter (\<lambda>e. \<not> (fst e \<in> set (map fst es) \<and> endswith (fst e) ''.tmp'')) es"
    using rm by (rule remove_tmp_None_filter)
  then have clean: "\<forall>f\<in>set (map fst es'). \<not> endswith f ''.tmp''"
    by auto
  assume v: "data_dir v = data_dir w'" "tmp_dir v = tmp_dir w'"
  have "tmp_dir v = tmp_dir w1" using v(2) w' by simp
  with reset_tmp_Inr(2) [OF rs] have "tmp_dir v = None \<or> tmp_dir v = Some (Dir [])" by simp
  then obtain l' where rv: "reset_tmp v = Inr (v\<lparr>stdout := l'\<rparr>)"
    using reset_tmp_again by blast
  moreover have "data_dir v = Some (Dir es')" using v(1) w' by simp
  moreover have "remove_tmp (map fst es') (es', l') = (None, es', l')"
    using clean by (rule remove_tmp_nothing)
  ultimately have "cleanup_files v = Done (v\<lparr>stdout := l'\<rparr>)"
    by (simp add: cleanup_files_def)
  then show "\<exists>l. cleanup_files v = Done (v\<lparr>stdout := l\<rparr>)" ..
qed

lemma cleanup_files_keeps_name:
  assumes "\<not> endswith name ''.tmp''"
  shows "read_file (data_dir (final (cleanup_files w))) name = read_file (data_dir w) name"
  unfolding cleanup_files_data
  by (auto simp: read_file_def remove_tmp_keeps [OF assms]
      split: option.splits node.splits sum.splits)

lemma first_run_example:
  "etl_movies_ratings (\<lambda>df. None) example_world = Done example_world_after"
  by code_simp

text \<open>
  Claim C2. If a run of the whole graph succeeds, then a second run on the world it
  leaves (the source files untouched in between) succeeds as well, whatever the plotting
  step does in either run; the two runs leave the same rows in \<^verbatim>\<open>fact_movie_ratings\<close>
  and the same query result in \<^verbatim>\<open>avg_ratings.csv\<close>. Each table write replaces the table,
  so nothing of the first run is counted twice.
\<close>

theorem rerun_reproduces_fact_and_analysis:
  assumes run1: "etl_movies_ratings plt1 w = Done w1"
  shows "\<exists>w2 rows. etl_movies_ratings plt2 w1 = Done w2
      \<and> fact_movie_ratings w1 = Some rows
      \<and> fact_movie_ratings w2 = Some rows
      \<and> read_file (output_dir w1) ''avg_ratings.csv'' = Inr (AvgRatingsCsv (analysis_query rows))
      \<and> read_file (output_dir w2) ''avg_ratings.csv'' = Inr (AvgRatingsCsv (analysis_query rows))"
proof -
  from run1 obtain wa wb wc wd we wf where
    a: "ingest_movies w = Done wa" and b: "ingest_ratings wa = Done wb" and
    c: "merge_transform wb = Done wc" and d: "validate_rowcount_py wc = Done wd" and
    e: "simple_analysis plt1 wd = Done we" and f: "cleanup_intermediate we = Done wf" and
    g: "cleanup_files wf = Done w1"
    by (auto simp: etl_movies_ratings_def and_then_Done)
  define sm sr fr od dd td where "sm = stg_movies wa" and "sr = stg_ratings wb"
    and "fr = fact_movie_ratings wc" and "od = output_dir we" and "dd = data_dir w1"
    and "td = tmp_dir w1"
  define la lb lc ld le lf lg where "la = stdout wa" and "lb = stdout wb" and "lc = stdout wc"
    and "ld = stdout wd" and "le = stdout we" and "lf = stdout wf" and "lg = stdout w1"
  have wa: "wa = w\<lparr>stg_movies := sm, stdout := la\<rparr>"
    using ingest_movies_Done(1) [OF a] by (simp add: sm_def la_def)
  have wb: "wb = wa\<lparr>stg_ratings := sr, stdout := lb\<rparr>"
    using ingest_ratings_Done(1) [OF b] by (simp add: sr_def lb_def)
  have wc: "wc = wb\<lparr>fact_movie_ratings := fr, stdout := lc\<rparr>"
    using merge_transform_Done(1) [OF c] by (simp add: fr_def lc_def)
  have wd: "wd = wc\<lparr>stdout := ld\<rparr>"
    using validate_rowcount_py_Done(1) [OF d] by (simp add: ld_def)
  from validate_rowcount_py_Done(2) [OF d] obtain rows where
    rows: "fact_movie_ratings wc = Some rows" "rows \<noteq> []" by blast
  have we: "we = wd\<lparr>output_dir := od, stdout := le\<rparr>"
    using simple_analysis_Done(1) [OF e] by (simp add: od_def le_def)
  have wf: "wf = we\<lparr>stg_movies := None, stg_ratings := None, stdout := lf\<rparr>"
    using f by (auto simp: cleanup_intermediate_def print_line_def lf_def)
  have w1: "w1 = wf\<lparr>data_dir := dd, tmp_dir := td, stdout := lg\<rparr>"
    using cleanup_files_Done(1) [OF g] by (simp add: dd_def td_def lg_def)
  have fr: "fr = Some rows" using rows(1) by (simp add: fr_def)
  have "fact_movie_ratings wd = Some rows" by (simp add: wd wc fr)
  with simple_analysis_Done(2) [OF e] obtain es where
    es: "od = Some (Dir es)"
      "map_of es ''avg_ratings.csv'' = Some (File (AvgRatingsCsv (analysis_query rows)))"
    by (auto simp: od_def)
  have csv1: "read_file (output_dir w1) ''avg_ratings.csv'' =
      Inr (AvgRatingsCsv (analysis_query rows))"
    using es by (simp add: w1 wf we read_file_def)
  have fact1: "fact_movie_ratings w1 = Some rows"
    by (simp add: w1 wf we wd wc fr)
  \<comment> \<open>the second run\<close>
  have k1: "\<not> endswith ''movies.csv'' ''.tmp''" by (simp add: endswith_def)
  have k2: "\<not> endswith ''ratings.csv'' ''.tmp''" by (simp add: endswith_def)
  have src1: "read_file (data_dir w1) ''movies.csv'' = read_file (data_dir w) ''movies.csv''"
    using cleanup_files_keeps_name [OF k1, of wf] g by (simp add: wf we wd wc wb wa)
  have src2: "read_file (data_dir w1) ''ratings.csv'' = read_file (data_dir wa) ''ratings.csv''"
    using cleanup_files_keeps_name [OF k2, of wf] g by (simp add: wf we wd wc wb wa)
  from ingest_movies_Done(2) [OF a src1] obtain l1 where
    a2: "ingest_movies w1 = Done (w1\<lparr>stg_movies := sm, stdout := l1\<rparr>)"
    by (auto simp: sm_def)
  define v1 where "v1 = w1\<lparr>stg_movies := sm, stdout := l1\<rparr>"
  have "read_file (data_dir v1) ''ratings.csv'' = read_file (data_dir wa) ''ratings.csv''"
    using src2 by (simp add: v1_def)
  from ingest_ratings_Done(2) [OF b this] obtain l2 where
    b2: "ingest_ratings v1 = Done (v1\<lparr>stg_ratings := sr, stdout := l2\<rparr>)"
    by (auto simp: sr_def)
  define v2 where "v2 = v1\<lparr>stg_ratings := sr, stdout := l2\<rparr>"
  have "stg_movies v2 = stg_movies wb" "stg_ratings v2 = stg_ratings wb"
    by (simp_all add: v2_def v1_def wb wa)
  from merge_transform_Done(2) [OF c this] obtain l3 where
    c2: "merge_transform v2 = Done (v2\<lparr>fact_movie_ratings := fr, stdout := l3\<rparr>)"
    by (auto simp: fr_def)
  define v3 where "v3 = v2\<lparr>fact_movie_ratings := fr, stdout := l3\<rparr>"
  have "fact_movie_ratings v3 = fact_movie_ratings wc"
    by (simp add: v3_def fr_def)
  from validate_rowcount_py_Done(3) [OF d this] obtain l4 where
    d2: "validate_rowcount_py v3 = Done (v3\<lparr>stdout := l4\<rparr>)"
    by blast
  define v4 where "v4 = v3\<lparr>stdout := l4\<rparr>"
  have mk: "makedirs_exist_ok (output_dir v4) = Inr od"
    using es(1) by (simp add: v4_def v3_def v2_def v1_def w1 wf we makedirs_exist_ok_def)
  have tb: "fact_movie_ratings v4 = Some rows" by (simp add: v4_def v3_def fr)
  have ne: "analysis_query rows \<noteq> []" using rows(2) by (simp add: analysis_query_Nil_iff)
  from write_file_again [OF es] obtain od2 where
    wr: "write_file od ''avg_ratings.csv'' (AvgRatingsCsv (analysis_query rows)) = Inr od2"
    by blast
  from simple_analysis_writes_csv [OF mk tb ne wr, of plt2]
  obtain v5 where e2: "simple_analysis plt2 v4 = Done v5"
    and csv2: "read_file (output_dir v5) ''avg_ratings.csv'' =
      Inr (AvgRatingsCsv (analysis_query rows))"
    by (cases "simple_analysis plt2 v4") auto
  define od' l5 where "od' = output_dir v5" and "l5 = stdout v5"
  have v5: "v5 = v4\<lparr>output_dir := od', stdout := l5\<rparr>"
    using simple_analysis_Done(1) [OF e2] by (simp add: od'_def l5_def)
  define v6 where "v6 = print_line Dropped_staging_tables
    (v5\<lparr>stg_movies := None, stg_ratings := None\<rparr>)"
  have f2: "cleanup_intermediate v5 = Done v6" by (simp add: cleanup_intermediate_def v6_def)
  have "data_dir v6 = data_dir w1" "tmp_dir v6 = tmp_dir w1"
    by (simp_all add: v6_def v5 v4_def v3_def v2_def v1_def)
  from cleanup_files_Done(2) [OF g this] obtain l7 where
    g2: "cleanup_files v6 = Done (v6\<lparr>stdout := l7\<rparr>)"
    by blast
  have run2: "etl_movies_ratings plt2 w1 = Done (v6\<lparr>stdout := l7\<rparr>)"
    using a2 b2 c2 d2 e2 f2 g2
    by (simp add: etl_movies_ratings_def and_then_def v1_def v2_def v3_def v4_def)
  have fact2: "fact_movie_ratings (v6\<lparr>stdout := l7\<rparr>) = Some rows"
    by (simp add: v6_def v5 v4_def v3_def fr)
  have csv2': "read_file (output_dir (v6\<lparr>stdout := l7\<rparr>)) ''avg_ratings.csv'' =
      Inr (AvgRatingsCsv (analysis_query rows))"
    using csv2 by (simp add: v6_def)
  from run2 fact1 fact2 csv1 csv2' show ?thesis by blast
qed

theorem rerun_reproduces_fact_and_analysis_witness:
  "\<exists>w2. etl_movies_ratings (\<lambda>df. Some PlotError) example_world_after = Done w2
     \<and> fact_movie_ratings w2 = Some example_fact
     \<and> read_file (output_dir w2) ''avg_ratings.csv'' =
         Inr (AvgRatingsCsv [\<lparr>ag_title = Some ''A'', ag_avg_rating = Some 3, ag_n = 2\<rparr>])"
proof -
  from rerun_reproduces_fact_and_analysis [OF first_run_example, of "\<lambda>df. Some PlotError"]
  obtain w2 rows where r: "etl_movies_ratings (\<lambda>df. Some PlotError) example_world_after = Done w2"
    "fact_movie_ratings example_world_after = Some rows" "fact_movie_ratings w2 = Some rows"
    "read_file (output_dir w2) ''avg_ratings.csv'' = Inr (AvgRatingsCsv (analysis_query rows))"
    by blast
  from r(2) have "rows = example_fact" by (simp add: example_world_after_def)
  with r show ?thesis by (simp add: analysis_query_example_fact)
qed

section \<open>Failure of one loader\<close>

lemma all_tasks_complete: "t \<in> set all_tasks"
  by (cases t) (simp_all add: all_tasks_def)

lemma sound_iff: "sound r \<longleftrightarrow> (\<forall>t. sound_at r t)"
  by (auto simp: sound_def list_all_iff all_tasks_complete)

lemma sound_new_run: "sound new_run"
  by (simp add: sound_iff sound_at_def new_run_def)

lemma upstream_kept:
  assumes "list_all (\<lambda>u. status_of r u = Succeeded) us" "status_of r t \<noteq> Succeeded"
  shows "list_all (\<lambda>u. ((status_of r)(t := s)) u = Succeeded) us"
  using assms by (induction us) auto

lemma sound_update:
  assumes snd: "sound r"
    and old: "status_of r t \<noteq> Succeeded"
    and st: "status_of r' = (status_of r)(t := s)"
    and at: "\<And>t'. t' \<noteq> t \<Longrightarrow> attempts r' t' = attempts r t'"
    and new_up: "s = Running \<or> s = Succeeded \<or> s = Failed \<or> 0 < attempts r' t \<Longrightarrow>
        list_all (\<lambda>u. status_of r u = Succeeded) (upstream t)"
    and new_sk: "s = Skipped \<Longrightarrow> attempts r' t = 0"
    and new_fl: "s = Failed \<Longrightarrow> attempts r' t = Suc retries"
    and new_rn: "s = Running \<Longrightarrow> 0 < attempts r' t \<and> attempts r' t \<le> Suc retries"
    and new_pd: "s = Pending \<Longrightarrow> attempts r' t \<le> retries"
  shows "sound r'"
  unfolding sound_iff
proof
  fix t'
  show "sound_at r' t'"
  proof (cases "t' = t")
    case True
    have "list_all (\<lambda>u. status_of r' u = Succeeded) (upstream t)"
      if "s = Running \<or> s = Succeeded \<or> s = Failed \<or> 0 < attempts r' t"
      unfolding st using new_up [OF that] old by (rule upstream_kept)
    then show ?thesis
      using True new_sk new_fl new_rn new_pd by (simp add: sound_at_def st)
  next
    case False
    from snd have o: "sound_at r t'" by (simp add: sound_iff)
    have "list_all (\<lambda>u. status_of r' u = Succeeded) (upstream t')"
      if "list_all (\<lambda>u. status_of r u = Succeeded) (upstream t')"
      unfolding st using that old by (rule upstream_kept)
    then show ?thesis
      using o False at [OF False] by (simp add: sound_at_def st)
  qed
qed

lemma sound_step:
  assumes "step r r'" "sound r"
  shows "sound r'"
  using assms
proof (induction rule: step.induct)
  case (dispatch r t)
  from dispatch(3) have o: "sound_at r t" by (simp add: sound_iff)
  show ?case
    by (rule sound_update [OF dispatch(3), of t _ Running])
       (use dispatch(1,2) o in \<open>simp_all add: dispatched_def set_status_def sound_at_def\<close>)
next
  case (succeed r t)
  from succeed(2) have o: "sound_at r t" by (simp add: sound_iff)
  show ?case
    by (rule sound_update [OF succeed(2), of t _ Succeeded])
       (use succeed(1) o in \<open>simp_all add: set_status_def sound_at_def\<close>)
next
  case (retry r t)
  from retry(3) have o: "sound_at r t" by (simp add: sound_iff)
  show ?case
    by (rule sound_update [OF retry(3), of t _ Pending])
       (use retry(1,2) o in \<open>simp_all add: set_status_def sound_at_def\<close>)
next
  case (exhaust r t)
  from exhaust(3) have o: "sound_at r t" by (simp add: sound_iff)
  show ?case
    by (rule sound_update [OF exhaust(3), of t _ Failed])
       (use exhaust(1,2) o in \<open>simp_all add: set_status_def sound_at_def\<close>)
next
  case (skip r t)
  from skip(3) have o: "sound_at r t" by (simp add: sound_iff)
  have "attempts r t = 0"
  proof (rule ccontr)
    assume "attempts r t \<noteq> 0"
    with o have "list_all (\<lambda>u. status_of r u = Succeeded) (upstream t)"
      by (simp add: sound_at_def)
    with skip(2) show False by (auto simp: list_all_iff list_ex_iff)
  qed
  then show ?case
    by (intro sound_update [OF skip(3), of t _ Skipped])
       (use skip(1) in \<open>simp_all add: set_status_def\<close>)
qed

lemma sound_reachable:
  assumes "step\<^sup>*\<^sup>* new_run r"
  shows "sound r"
  using assms by (induction rule: rtranclp_induct) (auto intro: sound_new_run sound_step)

lemma skipped_below:
  assumes snd: "sound r" and tm: "terminal r"
    and up: "u \<in> set (upstream t)" and ns: "status_of r u \<noteq> Succeeded"
  shows "status_of r t = Skipped \<and> attempts r t = 0"
proof -
  from snd have o: "sound_at r t" by (simp add: sound_iff)
  from up ns have nall: "\<not> list_all (\<lambda>u. status_of r u = Succeeded) (upstream t)"
    by (auto simp: list_all_iff)
  from tm have "status_of r t \<noteq> Pending" "status_of r t \<noteq> Running"
    by (simp_all add: terminal_def list_all_iff all_tasks_complete)
  with o nall have "status_of r t = Skipped"
    by (cases "status_of r t") (simp_all add: sound_at_def)
  with o show ?thesis by (simp add: sound_at_def)
qed

lemma example_run_reachable: "step\<^sup>*\<^sup>* new_run example_run"
proof -
  let ?r1 = "dispatched Ingest_movies new_run"
  let ?r2 = "set_status Ingest_movies Succeeded ?r1"
  let ?r3 = "dispatched Ingest_ratings ?r2"
  let ?r4 = "set_status Ingest_ratings Pending ?r3"
  let ?r5 = "dispatched Ingest_ratings ?r4"
  let ?r6 = "set_status Ingest_ratings Failed ?r5"
  let ?r7 = "set_status Merge_and_load_final Skipped ?r6"
  let ?r8 = "set_status Validate_rowcount Skipped ?r7"
  let ?r9 = "set_status Perform_analysis Skipped ?r8"
  let ?r10 = "set_status Cleanup_stage_db Skipped ?r9"
  let ?r11 = "set_status Cleanup_files Skipped ?r10"
  note ev = dispatched_def set_status_def new_run_def retries_def
  have "step new_run ?r1" by (rule step.dispatch) (simp_all add: ev)
  then have "step\<^sup>*\<^sup>* new_run ?r1" by (rule r_into_rtranclp)
  moreover have "step ?r1 ?r2" by (rule step.succeed) (simp_all add: ev)
  ultimately have "step\<^sup>*\<^sup>* new_run ?r2" by (rule rtranclp.rtrancl_into_rtrancl)
  moreover have "step ?r2 ?r3" by (rule step.dispatch) (simp_all add: ev)
  ultimately have "step\<^sup>*\<^sup>* new_run ?r3" by (rule rtranclp.rtrancl_into_rtrancl)
  moreover have "step ?r3 ?r4" by (rule step.retry) (simp_all add: ev)
  ultimately have "step\<^sup>*\<^sup>* new_run ?r4" by (rule rtranclp.rtrancl_into_rtrancl)
  moreover have "step ?r4 ?r5" by (rule step.dispatch) (simp_all add: ev)
  ultimately have "step\<^sup>*\<^sup>* new_run ?r5" by (rule rtranclp.rtrancl_into_rtrancl)
  moreover have "step ?r5 ?r6" by (rule step.exhaust) (simp_all add: ev)
  ultimately have "step\<^sup>*\<^sup>* new_run ?r6" by (rule rtranclp.rtrancl_into_rtrancl)
  moreover have "step ?r6 ?r7" by (rule step.skip) (simp_all add: ev)
  ultimately have "step\<^sup>*\<^sup>* new_run ?r7" by (rule rtranclp.rtrancl_into_rtrancl)
  moreover have "step ?r7 ?r8" by (rule step.skip) (simp_all add: ev)
  ultimately have "step\<^sup>*\<^sup>* new_run ?r8" by (rule rtranclp.rtrancl_into_rtrancl)
  moreover have "step ?r8 ?r9" by (rule step.skip) (simp_all add: ev)
  ultimately have "step\<^sup>*\<^sup>* new_run ?r9" by (rule rtranclp.rtrancl_into_rtrancl)
  moreover have "step ?r9 ?r10" by (rule step.skip) (simp_all add: ev)
  ultimately have "step\<^sup>*\<^sup>* new_run ?r10" by (rule rtranclp.rtrancl_into_rtrancl)
  moreover have "step ?r10 ?r11" by (rule step.skip) (simp_all add: ev)
  ultimately have "step\<^sup>*\<^sup>* new_run ?r11" by (rule rtranclp.rtrancl_into_rtrancl)
  then show ?thesis by (simp add: example_run_def)
qed

lemma example_run_status:
  "map (status_of example_run) all_tasks =
     [Succeeded, Failed, Skipped, Skipped, Skipped, Skipped, Skipped]"
  "map (attempts example_run) all_tasks = [1, 2, 0, 0, 0, 0, 0]"
  by (simp_all add: example_run_def all_tasks_def dispatched_def set_status_def new_run_def)

text \<open>
  Claim C3. In every run that has ended with one of the two ingestion tasks succeeded and
  the other failed, the failed one has used up its attempts (one more than the retries),
  the tasks \<^verbatim>\<open>merge_and_load_final\<close>, \<^verbatim>\<open>validate_rowcount\<close>, \<^verbatim>\<open>perform_analysis\<close>,
  \<^verbatim>\<open>cleanup_stage_db\<close> and \<^verbatim>\<open>cleanup_files\<close> are all skipped and none of them was ever
  attempted, and the run has failed.
\<close>

theorem failed_loader_skips_downstream:
  assumes reach: "step\<^sup>*\<^sup>* new_run r" and tm: "terminal r"
    and one: "status_of r Ingest_movies = Succeeded \<and> status_of r Ingest_ratings = Failed
            \<or> status_of r Ingest_movies = Failed \<and> status_of r Ingest_ratings = Succeeded"
  shows "list_all (\<lambda>t. status_of r t = Skipped \<and> attempts r t = 0)
           [Merge_and_load_final, Validate_rowcount, Perform_analysis, Cleanup_stage_db,
            Cleanup_files]
       \<and> run_failed r
       \<and> list_all (\<lambda>t. status_of r t = Succeeded \<or> attempts r t = Suc retries)
           [Ingest_movies, Ingest_ratings]"
proof -
  from reach have snd: "sound r" by (rule sound_reachable)
  from one obtain l where l: "l \<in> set (upstream Merge_and_load_final)" "status_of r l = Failed"
    by auto
  have m: "status_of r Merge_and_load_final = Skipped \<and> attempts r Merge_and_load_final = 0"
    using snd tm l(1) by (rule skipped_below) (simp add: l(2))
  have v: "status_of r Validate_rowcount = Skipped \<and> attempts r Validate_rowcount = 0"
    by (rule skipped_below [OF snd tm, of Merge_and_load_final]) (simp_all add: m)
  have a: "status_of r Perform_analysis = Skipped \<and> attempts r Perform_analysis = 0"
    by (rule skipped_below [OF snd tm, of Validate_rowcount]) (simp_all add: v)
  have d: "status_of r Cleanup_stage_db = Skipped \<and> attempts r Cleanup_stage_db = 0"
    by (rule skipped_below [OF snd tm, of Perform_analysis]) (simp_all add: a)
  have f: "status_of r Cleanup_files = Skipped \<and> attempts r Cleanup_files = 0"
    by (rule skipped_below [OF snd tm, of Perform_analysis]) (simp_all add: a)
  have rf: "run_failed r"
    using one by (auto simp: run_failed_def all_tasks_def)
  from snd have "sound_at r Ingest_movies" "sound_at r Ingest_ratings"
    by (simp_all add: sound_iff)
  with one have ex: "list_all (\<lambda>t. status_of r t = Succeeded \<or> attempts r t = Suc retries)
           [Ingest_movies, Ingest_ratings]"
    by (auto simp: sound_at_def)
  from m v a d f rf ex show ?thesis by simp
qed

theorem failed_loader_skips_downstream_witness:
  "step\<^sup>*\<^sup>* new_run example_run \<and> terminal example_run
   \<and> status_of example_run Ingest_movies = Succeeded
   \<and> status_of example_run Ingest_ratings = Failed
   \<and> status_of example_run Cleanup_files = Skipped
   \<and> run_failed example_run"
proof -
  have st: "status_of example_run Ingest_movies = Succeeded"
    "status_of example_run Ingest_ratings = Failed"
    using example_run_status(1) by (simp_all add: all_tasks_def)
  have tm: "terminal example_run"
    using example_run_status(1) by (simp add: terminal_def all_tasks_def)
  from failed_loader_skips_downstream [OF example_run_reachable tm] st
  have "status_of example_run Cleanup_files = Skipped" "run_failed example_run"
    by simp_all
  with example_run_reachable tm st show ?thesis by simp
qed

end
